theory Spec2Isabelle
  imports Main
begin

section \<open>Configuration values\<close>

text \<open>
  The values a configuration tree is made of, as the decoders (JSON, YAML, TOML) and
  inline sources produce them: \<open>undefined\<close>, \<open>null\<close>, booleans, numbers, strings,
  sequences and maps. A sequence and a map carry the flag that \<open>Object.freeze\<close> sets
  and \<open>Object.isFrozen\<close> reads. Numbers are integers or \<open>NaN\<close> (only their
  truthiness matters below); a map is its own enumerable properties in insertion order.
  Function values inside a tree are not part of the model, and neither are cyclic
  structures.
\<close>

datatype jsval =
    JUndefined
  | JNull
  | JBool bool
  | JNum int
  | JNaN
  | JStr string
  | JArr bool "jsval list"
  | JObj bool "(string \<times> jsval) list"

datatype error =
    NotReady
  | NotInitialized
  | UnsupportedFormat string
  | DecodeFailure string
  | IOFailure string
  | TypeError string

text \<open>\<open>Boolean(v)\<close>: the truthiness that \<open>||\<close> and \<open>!\<close> test.\<close>

fun Boolean :: "jsval \<Rightarrow> bool" where
  "Boolean JUndefined = False"
| "Boolean JNull = False"
| "Boolean (JBool b) = b"
| "Boolean (JNum n) = (n \<noteq> 0)"
| "Boolean JNaN = False"
| "Boolean (JStr s) = (s \<noteq> [])"
| "Boolean (JArr fr vs) = True"
| "Boolean (JObj fr kvs) = True"

text \<open>\<open>typeof v === 'object'\<close> (true of \<open>null\<close> as well) and \<open>Object.isFrozen(v)\<close>
  (true of every value that is not an object).\<close>

fun typeof_object :: "jsval \<Rightarrow> bool" where
  "typeof_object JNull = True"
| "typeof_object (JArr fr vs) = True"
| "typeof_object (JObj fr kvs) = True"
| "typeof_object v = False"

fun isFrozen :: "jsval \<Rightarrow> bool" where
  "isFrozen (JArr fr vs) = fr"
| "isFrozen (JObj fr kvs) = fr"
| "isFrozen v = True"

fun is_container :: "jsval \<Rightarrow> bool" where
  "is_container (JArr fr vs) = True"
| "is_container (JObj fr kvs) = True"
| "is_container v = False"

subsection \<open>Property access\<close>

text \<open>An array index is a canonical decimal numeral: \<open>''0''\<close>, or digits not starting
  with \<open>0\<close>.\<close>

definition is_digit :: "char \<Rightarrow> bool" where
  "is_digit c = (48 \<le> (of_char c :: nat) \<and> (of_char c :: nat) \<le> 57)"

definition digits_value :: "string \<Rightarrow> nat" where
  "digits_value s = foldl (\<lambda>n c. 10 * n + ((of_char c :: nat) - 48)) 0 s"

definition array_index :: "string \<Rightarrow> nat option" where
  "array_index key =
     (if key \<noteq> [] \<and> list_all is_digit key \<and> (key = ''0'' \<or> hd key \<noteq> CHR ''0'')
      then Some (digits_value key) else None)"

text \<open>
  The own properties of a value of a tree: the entries of a map, the elements and the
  length of a sequence or of a string. \<open>None\<close>: the value has no own property of
  that name.
\<close>

fun own_prop :: "jsval \<Rightarrow> string \<Rightarrow> jsval option" where
  "own_prop (JObj fr kvs) key = map_of kvs key"
| "own_prop (JArr fr vs) key =
     (if key = ''length'' then Some (JNum (int (length vs)))
      else case array_index key of
             Some i \<Rightarrow> (if i < length vs then Some (vs ! i) else None)
           | None \<Rightarrow> None)"
| "own_prop (JStr s) key =
     (if key = ''length'' then Some (JNum (int (length s)))
      else case array_index key of
             Some i \<Rightarrow> (if i < length s then Some (JStr [s ! i]) else None)
           | None \<Rightarrow> None)"
| "own_prop v key = None"

text \<open>
  \<open>res[key]\<close> does not stop at own properties: a name that is no own property is looked
  up along the prototype chain, where it may find a built-in function or object
  (\<open>constructor\<close>, \<open>toString\<close>, \<open>hasOwnProperty\<close>), find nothing (\<open>undefined\<close>), or
  run an accessor that throws (\<open>caller\<close> of a built-in function). What the walk holds
  is therefore a value of the tree or something of the runtime, which is known by name
  only.
\<close>

datatype jsref = Data jsval | Native string

text \<open>
  The built-in prototypes belong to the runtime, not to the repository: \<open>inherited v key\<close>
  is what the prototype chain of the tree value \<open>v\<close> answers for a name that is no own
  property of \<open>v\<close>, and \<open>native_prop n key\<close> what the built-in \<open>n\<close> answers. \<open>Inl\<close> is the
  message of the TypeError that a read throws.
\<close>

record runtime =
  inherited :: "jsval \<Rightarrow> string \<Rightarrow> string + jsref"
  native_prop :: "string \<Rightarrow> string \<Rightarrow> string + jsref"

text \<open>\<open>res[key]\<close> for a \<open>res\<close> that is neither \<open>null\<close> nor \<open>undefined\<close>.\<close>

definition get_prop :: "runtime \<Rightarrow> jsref \<Rightarrow> string \<Rightarrow> string + jsref" where
  "get_prop R res key =
     (case res of
        Data v \<Rightarrow> (case own_prop v key of Some x \<Rightarrow> Inr (Data x) | None \<Rightarrow> inherited R v key)
      | Native n \<Rightarrow> native_prop R n key)"

text \<open>Truthiness of what the walk holds; a built-in is an object or a function.\<close>

fun Boolean_ref :: "jsref \<Rightarrow> bool" where
  "Boolean_ref (Data v) = Boolean v"
| "Boolean_ref (Native n) = True"

text \<open>
  \<open>a === b\<close>. \<open>NaN\<close> is not equal to itself; a built-in is equal to itself only. Two
  containers are strictly equal when they are the same object; the model compares them
  structurally, which is the same thing where it matters: a container reached from the
  root through own properties is a proper part of the root (\<open>own_walk_not_root\<close>).
\<close>

fun strict_equals :: "jsref \<Rightarrow> jsref \<Rightarrow> bool" where
  "strict_equals (Data a) (Data b) = (a = b \<and> a \<noteq> JNaN)"
| "strict_equals (Native n) (Native m) = (n = m)"
| "strict_equals (Data a) (Native m) = False"
| "strict_equals (Native n) (Data b) = False"

section \<open>The path accessor\<close>

text \<open>
  \<^verbatim>\<open>
  function get(obj, path, defaultValue = undefined) {
      const travel = (regexp) => String.prototype.split
          .call(path, regexp)
          .filter(Boolean)
          .reduce((res, key) => {
          return (res !== null && res !== undefined ? (res[key]) : res);
      }, obj);
      const result = travel(/[,[\]]+?/) || travel(/[,[\].]+?/);
      return result === undefined || result === obj ? defaultValue : result;
  }
  \<close>
  Both regular expressions match exactly one character of their class (the quantifier is
  lazy and nothing follows it), so \<open>split\<close> cuts the path at every delimiter character
  and keeps the empty pieces, which \<open>filter(Boolean)\<close> then drops. An exception thrown
  by a property read leaves \<open>reduce\<close>, \<open>travel\<close> and \<open>get\<close>.
\<close>

fun js_split :: "(char \<Rightarrow> bool) \<Rightarrow> string \<Rightarrow> string list" where
  "js_split delim [] = [[]]"
| "js_split delim (c # cs) =
     (if delim c then [] # js_split delim cs
      else case js_split delim cs of
             w # ws \<Rightarrow> (c # w) # ws
           | [] \<Rightarrow> [[c]])"

definition primary :: "char \<Rightarrow> bool" where
  "primary c = (c = CHR '','' \<or> c = CHR ''['' \<or> c = CHR '']'')"

definition secondary :: "char \<Rightarrow> bool" where
  "secondary c = (c = CHR '','' \<or> c = CHR ''['' \<or> c = CHR '']'' \<or> c = CHR ''.'')"

definition segments :: "(char \<Rightarrow> bool) \<Rightarrow> string \<Rightarrow> string list" where
  "segments regexp path = filter (\<lambda>s. s \<noteq> []) (js_split regexp path)"

definition step :: "runtime \<Rightarrow> jsref \<Rightarrow> string \<Rightarrow> string + jsref" where
  "step R res key =
     (if res \<noteq> Data JNull \<and> res \<noteq> Data JUndefined then get_prop R res key else Inr res)"

text \<open>\<open>reduce\<close> from the left, leaving at the first read that throws.\<close>

fun walk :: "runtime \<Rightarrow> jsref \<Rightarrow> string list \<Rightarrow> string + jsref" where
  "walk R res [] = Inr res"
| "walk R res (key # keys) =
     (case step R res key of Inl m \<Rightarrow> Inl m | Inr res' \<Rightarrow> walk R res' keys)"

definition travel :: "runtime \<Rightarrow> (char \<Rightarrow> bool) \<Rightarrow> jsref \<Rightarrow> string \<Rightarrow> string + jsref" where
  "travel R regexp obj path = walk R obj (segments regexp path)"

text \<open>\<open>const result = travel(/[,[\]]+?/) || travel(/[,[\].]+?/)\<close>\<close>

definition travel_result :: "runtime \<Rightarrow> jsref \<Rightarrow> string \<Rightarrow> string + jsref" where
  "travel_result R obj path =
     (case travel R primary obj path of
        Inl m \<Rightarrow> Inl m
      | Inr a \<Rightarrow> (if Boolean_ref a then Inr a else travel R secondary obj path))"

definition get :: "runtime \<Rightarrow> jsref \<Rightarrow> string \<Rightarrow> jsref \<Rightarrow> string + jsref" where
  "get R obj path defaultValue =
     (case travel_result R obj path of
        Inl m \<Rightarrow> Inl m
      | Inr result \<Rightarrow>
          Inr (if result = Data JUndefined \<or> strict_equals result obj then defaultValue
               else result))"

text \<open>
  The walk as far as the tree alone decides it: \<open>own_walk v keys\<close> follows own properties
  only and is \<open>None\<close> as soon as a name is no own property of the value reached, where
  the runtime has the answer. \<open>part_of x v\<close> says that \<open>x\<close> is \<open>v\<close> or lies inside it.
\<close>

fun own_walk :: "jsval \<Rightarrow> string list \<Rightarrow> jsval option" where
  "own_walk v [] = Some v"
| "own_walk v (key # keys) =
     (if v = JNull \<or> v = JUndefined then own_walk v keys
      else case own_prop v key of Some x \<Rightarrow> own_walk x keys | None \<Rightarrow> None)"

fun part_of :: "jsval \<Rightarrow> jsval \<Rightarrow> bool"
  and part_of_values :: "jsval \<Rightarrow> jsval list \<Rightarrow> bool"
  and part_of_props :: "jsval \<Rightarrow> (string \<times> jsval) list \<Rightarrow> bool" where
  "part_of x (JObj fr kvs) = (x = JObj fr kvs \<or> part_of_props x kvs)"
| "part_of x (JArr fr vs) = (x = JArr fr vs \<or> part_of_values x vs)"
| "part_of x JUndefined = (x = JUndefined)"
| "part_of x JNull = (x = JNull)"
| "part_of x (JBool b) = (x = JBool b)"
| "part_of x (JNum n) = (x = JNum n)"
| "part_of x JNaN = (x = JNaN)"
| "part_of x (JStr s) = (x = JStr s)"
| "part_of_values x [] = False"
| "part_of_values x (v # vs) = (part_of x v \<or> part_of_values x vs)"
| "part_of_props x [] = False"
| "part_of_props x ((k, v) # kvs) = (part_of x v \<or> part_of_props x kvs)"

section \<open>Deep freeze\<close>

text \<open>
  \<^verbatim>\<open>
  function deepFreeze(obj) {
      for (const value of Object.values(obj)) {
          if (typeof value === 'object' && !Object.isFrozen(value)) {
              deepFreeze(value);
          }
      }
      if (!Object.isFrozen(obj)) {
          Object.freeze(obj);
      }
  }
  \<close>
  The function descends into a nested value only when that value is an object that is
  not frozen yet; whatever it was, the object it is called on ends frozen. The source
  freezes in place; the model returns the tree with the flags set. On \<open>null\<close> and
  \<open>undefined\<close> the call \<open>Object.values(obj)\<close> throws: the recursion never reaches them
  (\<open>Object.isFrozen(null)\<close> holds), and the one outer call is guarded where it is made
  (\<open>then_callback\<close>).
\<close>

fun deepFreeze :: "jsval \<Rightarrow> jsval"
  and deepFreeze_values :: "jsval list \<Rightarrow> jsval list"
  and deepFreeze_props :: "(string \<times> jsval) list \<Rightarrow> (string \<times> jsval) list" where
  "deepFreeze (JObj fr kvs) = JObj True (deepFreeze_props kvs)"
| "deepFreeze (JArr fr vs) = JArr True (deepFreeze_values vs)"
| "deepFreeze JUndefined = JUndefined"
| "deepFreeze JNull = JNull"
| "deepFreeze (JBool b) = JBool b"
| "deepFreeze (JNum n) = JNum n"
| "deepFreeze JNaN = JNaN"
| "deepFreeze (JStr s) = JStr s"
| "deepFreeze_values [] = []"
| "deepFreeze_values (v # vs) =
     (if typeof_object v \<and> \<not> isFrozen v then deepFreeze v else v) # deepFreeze_values vs"
| "deepFreeze_props [] = []"
| "deepFreeze_props ((k, v) # kvs) =
     (k, if typeof_object v \<and> \<not> isFrozen v then deepFreeze v else v) # deepFreeze_props kvs"

text \<open>Recursively immutable: the value and every map and sequence reachable from it
  are frozen.\<close>

fun deeply_frozen :: "jsval \<Rightarrow> bool"
  and deeply_frozen_values :: "jsval list \<Rightarrow> bool"
  and deeply_frozen_props :: "(string \<times> jsval) list \<Rightarrow> bool" where
  "deeply_frozen (JObj fr kvs) = (fr \<and> deeply_frozen_props kvs)"
| "deeply_frozen (JArr fr vs) = (fr \<and> deeply_frozen_values vs)"
| "deeply_frozen JUndefined = True"
| "deeply_frozen JNull = True"
| "deeply_frozen (JBool b) = True"
| "deeply_frozen (JNum n) = True"
| "deeply_frozen JNaN = True"
| "deeply_frozen (JStr s) = True"
| "deeply_frozen_values [] = True"
| "deeply_frozen_values (v # vs) = (deeply_frozen v \<and> deeply_frozen_values vs)"
| "deeply_frozen_props [] = True"
| "deeply_frozen_props ((k, v) # kvs) = (deeply_frozen v \<and> deeply_frozen_props kvs)"

text \<open>
  What \<open>deepFreeze\<close> passes over: \<open>skipped_frozen v\<close> says that every nested container
  of \<open>v\<close> that is frozen already (and so is not entered) is recursively immutable.
\<close>

fun skipped_frozen :: "jsval \<Rightarrow> bool"
  and skipped_frozen_values :: "jsval list \<Rightarrow> bool"
  and skipped_frozen_props :: "(string \<times> jsval) list \<Rightarrow> bool" where
  "skipped_frozen (JObj fr kvs) = skipped_frozen_props kvs"
| "skipped_frozen (JArr fr vs) = skipped_frozen_values vs"
| "skipped_frozen JUndefined = True"
| "skipped_frozen JNull = True"
| "skipped_frozen (JBool b) = True"
| "skipped_frozen (JNum n) = True"
| "skipped_frozen JNaN = True"
| "skipped_frozen (JStr s) = True"
| "skipped_frozen_values [] = True"
| "skipped_frozen_values (v # vs) =
     ((if isFrozen v then deeply_frozen v else skipped_frozen v) \<and> skipped_frozen_values vs)"
| "skipped_frozen_props [] = True"
| "skipped_frozen_props ((k, v) # kvs) =
     ((if isFrozen v then deeply_frozen v else skipped_frozen v) \<and> skipped_frozen_props kvs)"

text \<open>A tree just built: no map or sequence in it is frozen.\<close>

fun unfrozen :: "jsval \<Rightarrow> bool"
  and unfrozen_values :: "jsval list \<Rightarrow> bool"
  and unfrozen_props :: "(string \<times> jsval) list \<Rightarrow> bool" where
  "unfrozen (JObj fr kvs) = (\<not> fr \<and> unfrozen_props kvs)"
| "unfrozen (JArr fr vs) = (\<not> fr \<and> unfrozen_values vs)"
| "unfrozen JUndefined = True"
| "unfrozen JNull = True"
| "unfrozen (JBool b) = True"
| "unfrozen (JNum n) = True"
| "unfrozen JNaN = True"
| "unfrozen (JStr s) = True"
| "unfrozen_values [] = True"
| "unfrozen_values (v # vs) = (unfrozen v \<and> unfrozen_values vs)"
| "unfrozen_props [] = True"
| "unfrozen_props ((k, v) # kvs) = (unfrozen v \<and> unfrozen_props kvs)"

text \<open>The content of a tree, its flags forgotten.\<close>

fun content :: "jsval \<Rightarrow> jsval"
  and content_values :: "jsval list \<Rightarrow> jsval list"
  and content_props :: "(string \<times> jsval) list \<Rightarrow> (string \<times> jsval) list" where
  "content (JObj fr kvs) = JObj False (content_props kvs)"
| "content (JArr fr vs) = JArr False (content_values vs)"
| "content JUndefined = JUndefined"
| "content JNull = JNull"
| "content (JBool b) = JBool b"
| "content (JNum n) = JNum n"
| "content JNaN = JNaN"
| "content (JStr s) = JStr s"
| "content_values [] = []"
| "content_values (v # vs) = content v # content_values vs"
| "content_props [] = []"
| "content_props ((k, v) # kvs) = (k, content v) # content_props kvs"

section \<open>Sources and their resolution\<close>

text \<open>
  A source is a file path (a string) or an inline object. \<open>indexOf\<close> compares with
  \<open>===\<close>: strings by their characters, objects by identity. An inline source is
  therefore the address of its object; what the object holds is read from the heap.
\<close>

datatype source = FileReference string | InlineValue nat

text \<open>
  The collaborators of the loader, outside the repository: reading a file, the decoders
  of the formats, the dynamic import of a script (its default export, called when it is a
  function), the heap of inline objects, and the merger
  \<open>merge = createMerger({ priority: 'right' })\<close> of the package \<open>smob\<close>. Each may fail.
\<close>

record env =
  readFile :: "string \<Rightarrow> error + string"
  JSON_parse :: "string \<Rightarrow> error + jsval"
  yaml_parse :: "string \<Rightarrow> error + jsval"
  toml_parse :: "string \<Rightarrow> error + jsval"
  import_default :: "string \<Rightarrow> error + jsval"
  heap :: "nat \<Rightarrow> jsval"
  merge :: "jsval list \<Rightarrow> error + jsval"

text \<open>\<open>filePath.split('.').pop()\<close>\<close>

definition extension :: "string \<Rightarrow> string" where
  "extension filePath = last (js_split (\<lambda>c. c = CHR ''.'') filePath)"

text \<open>
  \<open>loadFromFile\<close>: the file is read first, then the extension selects the decoder. Only
  the script branch has a \<open>catch\<close>, which answers \<open>{}\<close>.
\<close>

definition loadFromFile :: "env \<Rightarrow> string \<Rightarrow> error + jsval" where
  "loadFromFile E filePath =
     (case readFile E filePath of
        Inl e \<Rightarrow> Inl e
      | Inr fileContent \<Rightarrow>
          (if extension filePath = ''json'' then JSON_parse E fileContent
           else if extension filePath = ''yaml'' \<or> extension filePath = ''yml''
             then yaml_parse E fileContent
           else if extension filePath = ''toml'' then toml_parse E fileContent
           else if extension filePath = ''js''
             then (case import_default E fileContent of
                     Inl e \<Rightarrow> Inr (JObj False [])
                   | Inr v \<Rightarrow> Inr v)
           else Inl (UnsupportedFormat (extension filePath))))"

definition resolve :: "env \<Rightarrow> source \<Rightarrow> error + jsval" where
  "resolve E src =
     (case src of
        FileReference filePath \<Rightarrow> loadFromFile E filePath
      | InlineValue a \<Rightarrow> Inr (heap E a))"

text \<open>\<open>Promise.all\<close>: all the values in order, or a rejection. (Which rejection wins
  when several sources fail depends on timing; the model takes the first of the list.)\<close>

fun Promise_all :: "(error + 'a) list \<Rightarrow> error + 'a list" where
  "Promise_all [] = Inr []"
| "Promise_all (Inl e # rs) = Inl e"
| "Promise_all (Inr v # rs) =
     (case Promise_all rs of Inl e \<Rightarrow> Inl e | Inr vs \<Rightarrow> Inr (v # vs))"

section \<open>The class Config\<close>

text \<open>
  A pending load is the promise stored in \<open>loadConfigsPromise\<close>: its identity and the
  resolutions its executor started (the executor runs inside \<open>new Promise\<close>, over the
  sources as they are at the call). \<open>passes\<close> counts the executors run so far; it names
  the promises and is not a field of the source.
\<close>

record promise =
  pid :: nat
  loading :: "(error + jsval) list"

record config =
  ready :: bool
  loadConfigsPromise :: "promise option"
  mergedConfigs :: jsval
  sources :: "source list"
  passes :: nat

datatype outcome = Resolved | Rejected error

definition new_Config :: "source \<Rightarrow> source list \<Rightarrow> config" where
  "new_Config defaultConfig srcs =
     \<lparr>ready = False, loadConfigsPromise = None, mergedConfigs = JObj False [],
      sources = defaultConfig # srcs, passes = 0\<rparr>"

text \<open>
  \<open>loadConfigs()\<close> up to its \<open>return\<close>: the guard, or a new promise whose executor
  starts one resolution per source.
\<close>

definition loadConfigs :: "env \<Rightarrow> config \<Rightarrow> promise \<times> config" where
  "loadConfigs E c =
     (case loadConfigsPromise c of
        Some p \<Rightarrow> (p, c)
      | None \<Rightarrow>
          (let p = \<lparr>pid = passes c, loading = map (resolve E) (sources c)\<rparr>
           in (p, c\<lparr>loadConfigsPromise := Some p, passes := passes c + 1\<rparr>)))"

text \<open>
  The callback of \<open>then\<close>, statement by statement: the merged tree is assigned, frozen,
  and only then is \<open>ready\<close> set. An exception (of the merger, or of \<open>deepFreeze\<close> on
  \<open>null\<close> or \<open>undefined\<close>) goes to the \<open>catch\<close> and rejects.
\<close>

definition assign_merged :: "jsval \<Rightarrow> config \<Rightarrow> config" where
  "assign_merged m c = c\<lparr>mergedConfigs := m\<rparr>"

definition freeze_merged :: "config \<Rightarrow> config" where
  "freeze_merged c = c\<lparr>mergedConfigs := deepFreeze (mergedConfigs c)\<rparr>"

definition set_ready :: "config \<Rightarrow> config" where
  "set_ready c = c\<lparr>ready := True\<rparr>"

definition then_callback :: "env \<Rightarrow> jsval list \<Rightarrow> config \<Rightarrow> outcome \<times> config" where
  "then_callback E resolvedSources c =
     (case merge E resolvedSources of
        Inl e \<Rightarrow> (Rejected e, c)
      | Inr m \<Rightarrow>
          (if m = JUndefined \<or> m = JNull
           then (Rejected (TypeError ''Cannot convert undefined or null to object''),
                 assign_merged m c)
           else (Resolved, set_ready (freeze_merged (assign_merged m c)))))"

text \<open>
  The promise settles: \<open>Promise.all\<close> has its answer, \<open>then\<close> or \<open>catch\<close> runs, and
  \<open>finally\<close> clears the guard.
\<close>

definition settle :: "env \<Rightarrow> promise \<Rightarrow> config \<Rightarrow> outcome \<times> config" where
  "settle E p c =
     (let (out, c') =
            (case Promise_all (loading p) of
               Inl reason \<Rightarrow> (Rejected reason, c)
             | Inr resolvedSources \<Rightarrow> then_callback E resolvedSources c)
      in (out, c'\<lparr>loadConfigsPromise := None\<rparr>))"

text \<open>\<open>await this.loadConfigs()\<close> with nothing else running in between.\<close>

definition await_loadConfigs :: "env \<Rightarrow> config \<Rightarrow> outcome \<times> config" where
  "await_loadConfigs E c = (let (p, c1) = loadConfigs E c in settle E p c1)"

text \<open>\<open>n\<close> calls of \<open>loadConfigs()\<close> in a row: the handles returned and the state.\<close>

fun loadConfigs_times :: "nat \<Rightarrow> env \<Rightarrow> config \<Rightarrow> promise list \<times> config" where
  "loadConfigs_times 0 E c = ([], c)"
| "loadConfigs_times (Suc n) E c =
     (let (p, c1) = loadConfigs E c; (ps, c2) = loadConfigs_times n E c1 in (p # ps, c2))"

text \<open>
  \<^verbatim>\<open>
  get(path, defaultValue = undefined) {
      if (!this.ready) { throw new Error('Configuration not loaded yet. ...'); }
      if (!path) { return this.mergedConfigs; }
      else { return get(this.mergedConfigs, path, defaultValue); }
  }
  \<close>
\<close>

definition Config_get :: "runtime \<Rightarrow> config \<Rightarrow> string \<Rightarrow> jsref \<Rightarrow> error + jsref" where
  "Config_get R c path defaultValue =
     (if \<not> ready c then Inl NotReady
      else if path = [] then Inr (Data (mergedConfigs c))
      else case get R (Data (mergedConfigs c)) path defaultValue of
             Inl m \<Rightarrow> Inl (TypeError m)
           | Inr v \<Rightarrow> Inr v)"

text \<open>\<open>indexOf\<close> (\<open>-1\<close> when nothing is strictly equal) and \<open>splice(index, 1)\<close>.\<close>

fun indexOf :: "source list \<Rightarrow> source \<Rightarrow> int" where
  "indexOf [] x = - 1"
| "indexOf (y # ys) x =
     (if y = x then 0 else (if indexOf ys x < 0 then - 1 else indexOf ys x + 1))"

definition splice1 :: "source list \<Rightarrow> nat \<Rightarrow> source list" where
  "splice1 xs i = take i xs @ drop (Suc i) xs"

definition remove_at_indexOf :: "source \<Rightarrow> config \<Rightarrow> config" where
  "remove_at_indexOf src c =
     (if indexOf (sources c) src \<ge> 0
      then c\<lparr>sources := splice1 (sources c) (nat (indexOf (sources c) src))\<rparr>
      else c)"

definition removeSource :: "env \<Rightarrow> source \<Rightarrow> config \<Rightarrow> outcome \<times> config" where
  "removeSource E src c =
     (let c1 = remove_at_indexOf src c
      in if ready c1 then await_loadConfigs E c1 else (Resolved, c1))"

definition addSource :: "env \<Rightarrow> source list \<Rightarrow> config \<Rightarrow> outcome \<times> config" where
  "addSource E newSources c =
     (let c1 = c\<lparr>sources := sources c @ newSources\<rparr>
      in if ready c1 then await_loadConfigs E c1 else (Resolved, c1))"

subsection \<open>The global instance\<close>

text \<open>
  \<^verbatim>\<open>
  static async init(defaultConfig = {}, ...sources) {
      Config._globalConfig = new Config(defaultConfig, ...sources);
      await Config._globalConfig.loadConfigs();
      return Config.c;
  }
  static get c() {
      if (!Config._globalConfig) { throw new Error('Global configuration not set. ...'); }
      if (!Config._globalConfig.isReady) { throw new Error('Global configuration not loaded yet. ...'); }
      return Config._globalConfig;
  }
  \<close>
  The global slot holds the instance; what happens to the instance is seen through it.
\<close>

definition Config_c :: "config option \<Rightarrow> error + config" where
  "Config_c g =
     (case g of
        None \<Rightarrow> Inl NotInitialized
      | Some c \<Rightarrow> (if \<not> ready c then Inl NotReady else Inr c))"

text \<open>\<open>init\<close> up to its \<open>await\<close>: the new instance is in the slot and its load pending.\<close>

definition Config_init_start ::
  "env \<Rightarrow> source \<Rightarrow> source list \<Rightarrow> config option \<Rightarrow> promise \<times> config option" where
  "Config_init_start E defaultConfig srcs g =
     (let (p, c1) = loadConfigs E (new_Config defaultConfig srcs) in (p, Some c1))"

text \<open>\<open>init\<close> from its \<open>await\<close> on: the load settles; a rejection is thrown on, otherwise
  \<open>Config.c\<close> is returned.\<close>

definition Config_init_resume ::
  "env \<Rightarrow> promise \<Rightarrow> config \<Rightarrow> (error + config) \<times> config option" where
  "Config_init_resume E p c =
     (case settle E p c of
        (Rejected e, c') \<Rightarrow> (Inl e, Some c')
      | (Resolved, c') \<Rightarrow> (Config_c (Some c'), Some c'))"

definition Config_init ::
  "env \<Rightarrow> source \<Rightarrow> source list \<Rightarrow> config option \<Rightarrow> (error + config) \<times> config option" where
  "Config_init E defaultConfig srcs g =
     (let (p, c1) = loadConfigs E (new_Config defaultConfig srcs)
      in Config_init_resume E p c1)"

subsection \<open>The earlier revision\<close>

text \<open>
  \<open>src/unnamed/part_003\<close> (compiled) and \<open>src/unnamed/part_000\<close> (TypeScript) hold an
  earlier revision of the class: no \<open>deepFreeze\<close>, no global instance, no guard for the
  empty path, no \<open>catch\<close> around the import of a script, and a \<open>loadConfigs\<close> whose
  promise has no \<open>finally\<close>. The tests import \<open>build/index.js\<close>, which everything above
  follows. For comparison, the settlement of the earlier \<open>loadConfigs\<close>:
  \<^verbatim>\<open>
  Promise.all(loadingSources)
      .then((resolvedSources) => {
      this.mergedConfigs = merge(...resolvedSources);
      this.ready = true;
      resolve();
  }).catch((reason) => { reject(reason); });
  \<close>
\<close>

definition settle_earlier :: "env \<Rightarrow> promise \<Rightarrow> config \<Rightarrow> outcome \<times> config" where
  "settle_earlier E p c =
     (case Promise_all (loading p) of
        Inl reason \<Rightarrow> (Rejected reason, c)
      | Inr resolvedSources \<Rightarrow>
          (case merge E resolvedSources of
             Inl e \<Rightarrow> (Rejected e, c)
           | Inr m \<Rightarrow> (Resolved, c\<lparr>mergedConfigs := m, ready := True\<rparr>)))"

section \<open>The merger\<close>

text \<open>
  Modelled from the spec: the function \<open>merge\<close>, which the source obtains as
  \<open>createMerger({ priority: 'right' })\<close> from the package \<open>smob\<close>; the package is not
  among the files of the repository. The spec's rule: for each key present in two or
  more sources the value of the later source wins; when both competing values are maps
  they are merged recursively, key by key; when either is a scalar or a sequence the
  later value replaces the earlier one wholesale. The merge of two maps is a new map:
  the keys of the earlier one in their order, then the new keys of the later one.
\<close>

fun upsert ::
  "string \<Rightarrow> jsval \<Rightarrow> (jsval \<Rightarrow> jsval) \<Rightarrow> (string \<times> jsval) list \<Rightarrow> (string \<times> jsval) list" where
  "upsert k v f [] = [(k, v)]"
| "upsert k v f ((k', v') # kvs) =
     (if k' = k then (k', f v') # kvs else (k', v') # upsert k v f kvs)"

fun is_map :: "jsval \<Rightarrow> bool" where
  "is_map (JObj fr kvs) = True"
| "is_map v = False"

text \<open>Modelled from the spec: \<open>merge_onto higher lower\<close> is the value a key gets when
  the later source has \<open>higher\<close> for it and the earlier ones have come to \<open>lower\<close>.\<close>

fun merge_onto :: "jsval \<Rightarrow> jsval \<Rightarrow> jsval"
  and merge_props :: "(string \<times> jsval) list \<Rightarrow> (string \<times> jsval) list \<Rightarrow> (string \<times> jsval) list" where
  "merge_onto (JObj fr kvs) lower =
     (case lower of
        JObj fr' kvs' \<Rightarrow> JObj False (merge_props kvs kvs')
      | _ \<Rightarrow> JObj fr kvs)"
| "merge_onto (JArr fr vs) lower = JArr fr vs"
| "merge_onto JUndefined lower = JUndefined"
| "merge_onto JNull lower = JNull"
| "merge_onto (JBool b) lower = JBool b"
| "merge_onto (JNum n) lower = JNum n"
| "merge_onto JNaN lower = JNaN"
| "merge_onto (JStr s) lower = JStr s"
| "merge_props [] acc = acc"
| "merge_props ((k, v) # kvs) acc = merge_props kvs (upsert k v (merge_onto v) acc)"

text \<open>Modelled from the spec: the merge of two sources, the later one second.\<close>

definition merge2 :: "jsval \<Rightarrow> jsval \<Rightarrow> jsval" where
  "merge2 lower higher = merge_onto higher lower"

text \<open>Modelled from the spec: \<open>merge(...resolvedSources)\<close>, the deep merge of the resolved
  values in source order. The spec gives it no failure.\<close>

definition createMerger_right :: "jsval list \<Rightarrow> error + jsval" where
  "createMerger_right resolvedSources =
     (case resolvedSources of
        [] \<Rightarrow> Inr (JObj False [])
      | v # vs \<Rightarrow> Inr (foldl merge2 v vs))"

section \<open>Concrete inputs\<close>

text \<open>
  A small world to run the definitions in: four files, decoders that know their
  contents, a script whose import fails, and a heap of inline objects. Objects 0 and 1
  hold the same content at different addresses.
\<close>

definition example_readFile :: "string \<Rightarrow> error + string" where
  "example_readFile filePath =
     (if filePath = ''base.yaml'' then Inr ''port: 80''
      else if filePath = ''broken.json'' then Inr ''{''
      else if filePath = ''hook.js'' then Inr ''export default 1 +''
      else if filePath = ''notes.ini'' then Inr ''port=80''
      else Inl (IOFailure filePath))"

definition example_yaml :: "string \<Rightarrow> error + jsval" where
  "example_yaml fileContent =
     (if fileContent = ''port: 80'' then Inr (JObj False [(''port'', JNum 80)])
      else Inl (DecodeFailure ''yaml''))"

definition example_json :: "string \<Rightarrow> error + jsval" where
  "example_json fileContent =
     (if fileContent = ''{}'' then Inr (JObj False []) else Inl (DecodeFailure ''json''))"

definition example_toml :: "string \<Rightarrow> error + jsval" where
  "example_toml fileContent =
     (if fileContent = [] then Inr (JObj False []) else Inl (DecodeFailure ''toml''))"

definition example_import :: "string \<Rightarrow> error + jsval" where
  "example_import fileContent = Inl (DecodeFailure ''SyntaxError'')"

definition defaults_tree :: jsval where
  "defaults_tree = JObj False [(''moreconfig'', JObj False [(''defaultKey'', JStr ''defaultValue'')])]"

definition prefrozen_tree :: jsval where
  "prefrozen_tree = JObj False [(''a'', JObj True [(''b'', JObj False [])])]"

definition dotted_key_tree :: jsval where
  "dotted_key_tree =
     JObj False
       [(''a'', JObj False [(''b'', JArr False [JNum 0, JObj False [(''c'', JStr ''nested'')]])]),
        (''a.b'', JArr False [JNum 0, JObj False [(''.c'', JStr ''literal'')]])]"

definition nested_tree :: jsval where
  "nested_tree =
     JObj False
       [(''a'', JObj False [(''b'', JArr False [JNum 0, JObj False [(''c'', JStr ''nested'')]])])]"

definition example_heap :: "nat \<Rightarrow> jsval" where
  "example_heap a =
     (if a = 0 then defaults_tree
      else if a = 1 then defaults_tree
      else if a = 2 then prefrozen_tree
      else if a = 3 then dotted_key_tree
      else if a = 4 then nested_tree
      else JObj False [])"

definition example_env :: env where
  "example_env =
     \<lparr>readFile = example_readFile, JSON_parse = example_json, yaml_parse = example_yaml,
      toml_parse = example_toml, import_default = example_import, heap = example_heap,
      merge = createMerger_right\<rparr>"

text \<open>
  The part of the built-in prototypes that the examples touch: of a map, \<open>constructor\<close>
  is the function \<open>Object\<close> and \<open>toString\<close> a function of \<open>Object.prototype\<close>; of the
  function \<open>Object\<close>, \<open>name\<close> is \<open>'Object'\<close> and reading \<open>caller\<close> throws. Every other
  name the examples read is inherited by nothing.
\<close>

definition example_inherited :: "jsval \<Rightarrow> string \<Rightarrow> string + jsref" where
  "example_inherited v key =
     (if is_map v \<and> key = ''constructor'' then Inr (Native ''Object'')
      else if is_map v \<and> key = ''toString'' then Inr (Native ''Object.prototype.toString'')
      else Inr (Data JUndefined))"

definition example_native_prop :: "string \<Rightarrow> string \<Rightarrow> string + jsref" where
  "example_native_prop n key =
     (if n = ''Object'' \<and> key = ''name'' then Inr (Data (JStr ''Object''))
      else if n = ''Object'' \<and> key = ''caller''
        then Inl ''caller, callee and arguments may not be accessed on strict mode functions''
      else Inr (Data JUndefined))"

definition example_runtime :: runtime where
  "example_runtime = \<lparr>inherited = example_inherited, native_prop = example_native_prop\<rparr>"

text \<open>Instances after a first \<open>await loadConfigs()\<close>.\<close>

definition loaded_defaults :: config where
  "loaded_defaults =
     snd (await_loadConfigs example_env (new_Config (InlineValue 0) [FileReference ''base.yaml'']))"



section \<open>Walking a tree\<close>

text \<open>Once the walk has met \<open>undefined\<close> or \<open>null\<close> it reads no further property and
  keeps that value to the end; whatever it throws, a property read has thrown.\<close>

lemma walk_append:
  "walk R obj (ks @ ks') = (case walk R obj ks of Inl m \<Rightarrow> Inl m | Inr r \<Rightarrow> walk R r ks')"
  by (induction ks arbitrary: obj) (simp_all split: sum.splits)

lemma walk_JUndefined: "walk R (Data JUndefined) ks = Inr (Data JUndefined)"
  by (induction ks) (simp_all add: step_def)

lemma walk_JNull: "walk R (Data JNull) ks = Inr (Data JNull)"
  by (induction ks) (simp_all add: step_def)

lemma walk_absent_prefix:
  assumes "walk R obj (take n ks) = Inr (Data JUndefined)"
  shows "walk R obj ks = Inr (Data JUndefined)"
proof -
  have "walk R obj ks = walk R obj (take n ks @ drop n ks)"
    by simp
  also have "\<dots> = walk R (Data JUndefined) (drop n ks)"
    using assms by (simp only: walk_append sum.case)
  finally show ?thesis
    by (simp add: walk_JUndefined)
qed



text \<open>
  A map or a sequence reached through own properties by at least one step is a proper
  part of the tree the walk started from, so it is not that tree: comparing it with the
  root structurally, as \<open>strict_equals\<close> does, answers what the identity test of the
  source answers. And it is a part of that tree: the walk makes no copy.
\<close>

lemma size_map_of:
  "map_of kvs key = Some v \<Longrightarrow> size v < Suc (size_list (size_prod (\<lambda>_. 0) size) kvs)"
  by (induction kvs) (auto split: if_splits)

lemma size_nth: "i < length vs \<Longrightarrow> size (vs ! i) < Suc (size_list size vs)"
proof (induction vs arbitrary: i)
  case Nil
  then show ?case by simp
next
  case (Cons a vs)
  show ?case
  proof (cases i)
    case 0
    then show ?thesis by simp
  next
    case (Suc j)
    with Cons.prems have "j < length vs" by simp
    from Cons.IH [OF this] show ?thesis using Suc by simp
  qed
qed

lemma own_prop_smaller:
  "own_prop v key = Some x \<Longrightarrow> is_container x \<Longrightarrow> size x < size v"
proof (cases v)
  case (JObj fr kvs)
  then show "own_prop v key = Some x \<Longrightarrow> ?thesis"
    using size_map_of [of kvs key x] by simp
next
  case (JArr fr vs)
  then show "own_prop v key = Some x \<Longrightarrow> is_container x \<Longrightarrow> ?thesis"
    using size_nth [of _ vs] by (auto split: option.splits if_splits)
qed (auto split: option.splits if_splits)

lemma own_prop_container:
  "own_prop v key = Some x \<Longrightarrow> is_container x \<Longrightarrow> is_container v"
  by (cases v) (auto split: option.splits if_splits)

lemma own_walk_container:
  "own_walk v ks = Some x \<Longrightarrow> is_container x \<Longrightarrow> is_container v"
proof (induction ks arbitrary: v)
  case Nil
  then show ?case by simp
next
  case (Cons k ks)
  show ?case
  proof (cases "v = JNull \<or> v = JUndefined")
    case True
    with Cons.prems have "own_walk v ks = Some x" by auto
    from Cons.IH [OF this Cons.prems(2)] show ?thesis .
  next
    case False
    with Cons.prems obtain y where y: "own_prop v k = Some y" and w: "own_walk y ks = Some x"
      by (auto split: option.splits)
    from Cons.IH [OF w Cons.prems(2)] have "is_container y" .
    with y show ?thesis by (rule own_prop_container)
  qed
qed

lemma own_walk_smaller:
  "ks \<noteq> [] \<Longrightarrow> own_walk v ks = Some x \<Longrightarrow> is_container x \<Longrightarrow> size x < size v"
proof (induction ks arbitrary: v)
  case Nil
  then show ?case by simp
next
  case (Cons k ks)
  have cv: "is_container v"
    using Cons.prems(2,3) by (rule own_walk_container)
  then have "\<not> (v = JNull \<or> v = JUndefined)" by auto
  with Cons.prems obtain y where y: "own_prop v k = Some y" and w: "own_walk y ks = Some x"
    by (auto split: option.splits)
  have cy: "is_container y"
    using w Cons.prems(3) by (rule own_walk_container)
  have lt: "size y < size v"
    using y cy by (rule own_prop_smaller)
  show ?case
  proof (cases "ks = []")
    case True
    with w lt show ?thesis by simp
  next
    case False
    from Cons.IH [OF False w Cons.prems(3)] lt show ?thesis by simp
  qed
qed

lemma own_walk_not_root:
  "ks \<noteq> [] \<Longrightarrow> own_walk v ks = Some x \<Longrightarrow> is_container x \<Longrightarrow> x \<noteq> v"
  using own_walk_smaller [of ks v x] by auto

lemma part_of_refl: "part_of v v"
  by (cases v) simp_all

lemma part_of_props_map_of:
  "map_of kvs key = Some y \<Longrightarrow> part_of x y \<Longrightarrow> part_of_props x kvs"
  by (induction kvs) (auto split: if_splits)

lemma part_of_values_nth:
  "i < length vs \<Longrightarrow> part_of x (vs ! i) \<Longrightarrow> part_of_values x vs"
proof (induction vs arbitrary: i)
  case Nil
  then show ?case by simp
next
  case (Cons a vs)
  show ?case
  proof (cases i)
    case 0
    with Cons.prems show ?thesis by simp
  next
    case (Suc j)
    with Cons.prems have "j < length vs" "part_of x (vs ! j)" by simp_all
    from Cons.IH [OF this] show ?thesis by simp
  qed
qed

lemma own_prop_part:
  "own_prop v key = Some y \<Longrightarrow> part_of x y \<Longrightarrow> is_container x \<Longrightarrow> part_of x v"
proof (cases v)
  case (JObj fr kvs)
  then show "own_prop v key = Some y \<Longrightarrow> part_of x y \<Longrightarrow> ?thesis"
    using part_of_props_map_of [of kvs key y x] by simp
next
  case (JArr fr vs)
  then show "own_prop v key = Some y \<Longrightarrow> part_of x y \<Longrightarrow> is_container x \<Longrightarrow> ?thesis"
    using part_of_values_nth [of _ vs x] by (auto split: option.splits if_splits)
qed (auto split: option.splits if_splits)

lemma own_walk_part:
  "own_walk v ks = Some x \<Longrightarrow> is_container x \<Longrightarrow> part_of x v"
proof (induction ks arbitrary: v)
  case Nil
  then show ?case by (simp add: part_of_refl)
next
  case (Cons k ks)
  have "is_container v"
    using Cons.prems by (rule own_walk_container)
  then have "\<not> (v = JNull \<or> v = JUndefined)" by auto
  with Cons.prems obtain y where y: "own_prop v k = Some y" and w: "own_walk y ks = Some x"
    by (auto split: option.splits)
  from Cons.IH [OF w Cons.prems(2)] have "part_of x y" .
  with y show ?case using Cons.prems(2) by (rule own_prop_part)
qed

text \<open>A path has no segment exactly when it consists of delimiters, so a path with a
  segment when cut at the dots as well has one when cut at comma and brackets only.\<close>

lemma concat_js_split: "concat (js_split delim p) = filter (\<lambda>c. \<not> delim c) p"
  by (induction p) (auto split: list.splits)

lemma segments_Nil_iff: "segments delim p = [] \<longleftrightarrow> list_all delim p"
proof -
  have "segments delim p = [] \<longleftrightarrow> concat (js_split delim p) = []"
    by (auto simp: segments_def filter_empty_conv)
  also have "\<dots> \<longleftrightarrow> list_all delim p"
    by (simp add: concat_js_split filter_empty_conv list_all_iff)
  finally show ?thesis .
qed

lemma segments_secondary_primary:
  "segments secondary p \<noteq> [] \<Longrightarrow> segments primary p \<noteq> []"
  by (auto simp: segments_Nil_iff list_all_iff primary_def secondary_def)

lemma segments_path_nonempty: "segments delim p \<noteq> [] \<Longrightarrow> p \<noteq> []"
  by (auto simp: segments_def)






section \<open>The concrete inputs, evaluated\<close>

lemmas example_defs =
  example_runtime_def example_inherited_def example_native_prop_def
  example_env_def example_readFile_def example_yaml_def example_json_def example_toml_def
  example_import_def example_heap_def defaults_tree_def prefrozen_tree_def
  dotted_key_tree_def nested_tree_def

lemmas load_defs =
  await_loadConfigs_def loadConfigs_def settle_def then_callback_def assign_merged_def
  freeze_merged_def set_ready_def new_Config_def resolve_def loadFromFile_def extension_def
  createMerger_right_def merge2_def Let_def

lemma loaded_defaults_eq:
  "loaded_defaults =
     \<lparr>ready = True, loadConfigsPromise = None,
      mergedConfigs =
        JObj True [(''moreconfig'', JObj True [(''defaultKey'', JStr ''defaultValue'')]),
                   (''port'', JNum 80)],
      sources = [InlineValue 0, FileReference ''base.yaml''], passes = 1\<rparr>"
  by (simp add: loaded_defaults_def load_defs example_defs)




section \<open>One pass of the loader\<close>

text \<open>\<open>Promise.all\<close> rejects exactly when one of the resolutions failed, and then with one
  of their failures; a rejection leaves the instance as it was, up to the guard.\<close>

lemma Promise_all_Inl:
  "Promise_all rs = Inl e \<Longrightarrow> Inl e \<in> set rs"
  by (induction rs rule: Promise_all.induct) (auto split: sum.splits)

lemma Promise_all_fails:
  "Inl e0 \<in> set rs \<Longrightarrow> \<exists>e. Promise_all rs = Inl e"
  by (induction rs rule: Promise_all.induct) (auto split: sum.splits)

lemma Promise_all_map_Inr: "Promise_all (map Inr vs) = Inr vs"
  by (induction vs) simp_all

lemma Promise_all_Inr:
  "Promise_all rs = Inr vs \<Longrightarrow> rs = map Inr vs"
  by (induction rs arbitrary: vs rule: Promise_all.induct) (auto split: sum.splits)

lemma settle_Inl:
  "Promise_all (loading p) = Inl e \<Longrightarrow>
   settle E p c = (Rejected e, c\<lparr>loadConfigsPromise := None\<rparr>)"
  by (simp add: settle_def)

lemma loadConfigs_idle:
  "loadConfigsPromise c = None \<Longrightarrow>
   loadConfigs E c =
     (\<lparr>pid = passes c, loading = map (resolve E) (sources c)\<rparr>,
      c\<lparr>loadConfigsPromise := Some \<lparr>pid = passes c, loading = map (resolve E) (sources c)\<rparr>,
        passes := passes c + 1\<rparr>)"
  by (simp add: loadConfigs_def Let_def)

lemma loadConfigs_pending:
  "loadConfigsPromise c = Some p \<Longrightarrow> loadConfigs E c = (p, c)"
  by (simp add: loadConfigs_def)

lemma loadConfigs_keeps:
  "ready (snd (loadConfigs E c)) = ready c
   \<and> mergedConfigs (snd (loadConfigs E c)) = mergedConfigs c
   \<and> sources (snd (loadConfigs E c)) = sources c
   \<and> loadConfigsPromise (snd (loadConfigs E c)) = Some (fst (loadConfigs E c))"
  by (cases "loadConfigsPromise c") (simp_all add: loadConfigs_def Let_def)

lemma failed_source_in_loading:
  assumes "loadConfigsPromise c = None" and "src \<in> set (sources c)" and "resolve E src = Inl e0"
  shows "Inl e0 \<in> set (loading (fst (loadConfigs E c)))"
  using assms by (force simp: loadConfigs_idle)

lemma await_loadConfigs_eq:
  "await_loadConfigs E c = settle E (fst (loadConfigs E c)) (snd (loadConfigs E c))"
  by (simp add: await_loadConfigs_def case_prod_unfold Let_def)

section \<open>Reading before and after the first load\<close>




section \<open>What a ready instance returns\<close>

text \<open>
  Claim C6, as the source has it. On a ready Config, \<open>get\<close> with the empty path returns
  the merged tree itself, whatever the default (the guard \<open>if (!path)\<close>). For a path that
  is not empty: the moment both readings of the path meet an absent (\<open>undefined\<close>) value,
  at an intermediate position or at the end, nothing more is read, nothing is thrown and
  the default is returned; a path made of the delimiters comma and brackets only walks
  nowhere and yields the default (on a tree other than \<open>NaN\<close>); when the value resolved
  is neither the root tree itself nor \<open>null\<close>, \<open>get\<close> returns the default exactly when
  that value is \<open>undefined\<close>, and that value otherwise; and a map or sequence resolved
  through own properties of a tree that is a map or a sequence is returned as the part
  of the merged tree it is, a live reference into it.
\<close>

theorem Config_get_ready:
  assumes "ready c"
  shows "Config_get R c [] d = Inr (Data (mergedConfigs c))
    \<and> (path \<noteq> [] \<longrightarrow>
         walk R (Data (mergedConfigs c)) (take m (segments primary path)) = Inr (Data JUndefined) \<longrightarrow>
         walk R (Data (mergedConfigs c)) (take n (segments secondary path)) = Inr (Data JUndefined) \<longrightarrow>
         Config_get R c path d = Inr d)
    \<and> (path \<noteq> [] \<longrightarrow> segments primary path = [] \<longrightarrow> mergedConfigs c \<noteq> JNaN \<longrightarrow>
         Config_get R c path d = Inr d)
    \<and> (path \<noteq> [] \<longrightarrow> travel_result R (Data (mergedConfigs c)) path = Inr r \<longrightarrow>
         \<not> strict_equals r (Data (mergedConfigs c)) \<longrightarrow> r \<noteq> Data JNull \<longrightarrow>
         Config_get R c path d = Inr (if r = Data JUndefined then d else r))
    \<and> (is_container (mergedConfigs c) \<longrightarrow> segments secondary path \<noteq> [] \<longrightarrow>
         travel_result R (Data (mergedConfigs c)) path = Inr (Data v) \<longrightarrow> is_container v \<longrightarrow>
         own_walk (mergedConfigs c) (segments primary path) = Some v
           \<or> own_walk (mergedConfigs c) (segments secondary path) = Some v \<longrightarrow>
         Config_get R c path d = Inr (Data v) \<and> part_of v (mergedConfigs c))"
proof (intro conjI impI)
  show "Config_get R c [] d = Inr (Data (mergedConfigs c))"
    using assms by (simp add: Config_get_def)
next
  assume ne: "path \<noteq> []"
    and a1: "walk R (Data (mergedConfigs c)) (take m (segments primary path)) = Inr (Data JUndefined)"
    and a2: "walk R (Data (mergedConfigs c)) (take n (segments secondary path)) = Inr (Data JUndefined)"
  have "walk R (Data (mergedConfigs c)) (segments primary path) = Inr (Data JUndefined)"
    using a1 by (rule walk_absent_prefix)
  moreover have "walk R (Data (mergedConfigs c)) (segments secondary path) = Inr (Data JUndefined)"
    using a2 by (rule walk_absent_prefix)
  ultimately have "travel_result R (Data (mergedConfigs c)) path = Inr (Data JUndefined)"
    by (simp add: travel_result_def travel_def)
  then show "Config_get R c path d = Inr d"
    using assms ne by (simp add: Config_get_def get_def)
next
  assume ne: "path \<noteq> []" and e: "segments primary path = []"
    and nan: "mergedConfigs c \<noteq> JNaN"
  have "list_all secondary path"
    using e by (auto simp: segments_Nil_iff list_all_iff primary_def secondary_def)
  then have "segments secondary path = []"
    by (simp add: segments_Nil_iff)
  with e have "travel_result R (Data (mergedConfigs c)) path = Inr (Data (mergedConfigs c))"
    by (simp add: travel_result_def travel_def)
  then show "Config_get R c path d = Inr d"
    using assms ne nan by (simp add: Config_get_def get_def)
next
  assume "path \<noteq> []" and "travel_result R (Data (mergedConfigs c)) path = Inr r"
    and "\<not> strict_equals r (Data (mergedConfigs c))" and "r \<noteq> Data JNull"
  then show "Config_get R c path d = Inr (if r = Data JUndefined then d else r)"
    using assms by (simp add: Config_get_def get_def)
next
  assume ct: "is_container (mergedConfigs c)" and s: "segments secondary path \<noteq> []"
    and t: "travel_result R (Data (mergedConfigs c)) path = Inr (Data v)"
    and cv: "is_container v"
    and o: "own_walk (mergedConfigs c) (segments primary path) = Some v
      \<or> own_walk (mergedConfigs c) (segments secondary path) = Some v"
  have p: "segments primary path \<noteq> []"
    using s by (rule segments_secondary_primary)
  from o p s cv have nr: "v \<noteq> mergedConfigs c"
    using own_walk_not_root by blast
  have ne: "path \<noteq> []"
    using s by (rule segments_path_nonempty)
  have "v \<noteq> JUndefined"
    using cv by auto
  with t nr ne show "Config_get R c path d = Inr (Data v)"
    using assms by (simp add: Config_get_def get_def)
  from o cv show "part_of v (mergedConfigs c)"
    using own_walk_part by blast
qed

text \<open>
  On the instance loaded from the defaults and \<open>base.yaml\<close>: the empty path gives the
  tree; \<open>moreconfig.missing.deeper\<close> meets an absent value after one step in the dotted
  reading and at once in the other; \<open>[]\<close> has no segment; \<open>moreconfig.defaultKey\<close>
  resolves to a string, \<open>toString\<close> to an inherited function, and \<open>moreconfig\<close> to the
  map that is part of the tree.
\<close>

theorem Config_get_ready_witness:
  "ready loaded_defaults
   \<and> Config_get example_runtime loaded_defaults [] (Data (JStr ''fallback''))
       = Inr (Data (mergedConfigs loaded_defaults))
   \<and> walk example_runtime (Data (mergedConfigs loaded_defaults))
        (take 1 (segments primary ''moreconfig.missing.deeper'')) = Inr (Data JUndefined)
   \<and> walk example_runtime (Data (mergedConfigs loaded_defaults))
        (take 2 (segments secondary ''moreconfig.missing.deeper'')) = Inr (Data JUndefined)
   \<and> Config_get example_runtime loaded_defaults ''moreconfig.missing.deeper''
        (Data (JStr ''fallback'')) = Inr (Data (JStr ''fallback''))
   \<and> segments primary ''[]'' = []
   \<and> Config_get example_runtime loaded_defaults ''[]'' (Data (JStr ''fallback''))
       = Inr (Data (JStr ''fallback''))
   \<and> Config_get example_runtime loaded_defaults ''moreconfig.defaultKey''
        (Data (JStr ''fallback'')) = Inr (Data (JStr ''defaultValue''))
   \<and> Config_get example_runtime loaded_defaults ''toString'' (Data (JStr ''fallback''))
       = Inr (Native ''Object.prototype.toString'')
   \<and> own_walk (mergedConfigs loaded_defaults) (segments primary ''moreconfig'')
       = Some (JObj True [(''defaultKey'', JStr ''defaultValue'')])
   \<and> Config_get example_runtime loaded_defaults ''moreconfig'' (Data (JStr ''fallback''))
       = Inr (Data (JObj True [(''defaultKey'', JStr ''defaultValue'')]))
   \<and> part_of (JObj True [(''defaultKey'', JStr ''defaultValue'')]) (mergedConfigs loaded_defaults)"
proof -
  let ?d = "Data (JStr ''fallback'')" and ?root = "Data (mergedConfigs loaded_defaults)"
  let ?m = "JObj True [(''defaultKey'', JStr ''defaultValue'')]"
  have r: "ready loaded_defaults"
    by (simp add: loaded_defaults_eq)
  have w1: "walk example_runtime ?root
      (take 1 (segments primary ''moreconfig.missing.deeper'')) = Inr (Data JUndefined)"
    by (simp add: loaded_defaults_eq step_def get_prop_def segments_def primary_def example_defs)
  have w2: "walk example_runtime ?root
      (take 2 (segments secondary ''moreconfig.missing.deeper'')) = Inr (Data JUndefined)"
    by (simp add: loaded_defaults_eq step_def get_prop_def segments_def secondary_def example_defs)
  have s0: "segments primary ''[]'' = []"
    by (simp add: segments_def primary_def)
  have nan: "mergedConfigs loaded_defaults \<noteq> JNaN"
    and ct: "is_container (mergedConfigs loaded_defaults)"
    by (simp_all add: loaded_defaults_eq)
  have t1: "travel_result example_runtime ?root ''moreconfig.defaultKey''
      = Inr (Data (JStr ''defaultValue''))"
    by (simp add: loaded_defaults_eq travel_result_def travel_def step_def get_prop_def
        segments_def primary_def secondary_def example_defs)
  have t2: "travel_result example_runtime ?root ''toString''
      = Inr (Native ''Object.prototype.toString'')"
    by (simp add: loaded_defaults_eq travel_result_def travel_def step_def get_prop_def
        segments_def primary_def secondary_def example_defs)
  have t3: "travel_result example_runtime ?root ''moreconfig'' = Inr (Data ?m)"
    by (simp add: loaded_defaults_eq travel_result_def travel_def step_def get_prop_def
        segments_def primary_def secondary_def example_defs)
  have o3: "own_walk (mergedConfigs loaded_defaults) (segments primary ''moreconfig'') = Some ?m"
    by (simp add: loaded_defaults_eq segments_def primary_def)
  have s3: "segments secondary ''moreconfig'' \<noteq> []"
    by (simp add: segments_def secondary_def)
  have q1: "\<not> strict_equals (Data (JStr ''defaultValue'')) ?root"
    and q2: "\<not> strict_equals (Native ''Object.prototype.toString'') ?root"
    by (simp_all add: loaded_defaults_eq)
  note a = Config_get_ready [OF r, where R = example_runtime and d = ?d
      and path = "''moreconfig.missing.deeper''" and m = 1 and n = 2 and r = ?d and v = JNull]
  note b = Config_get_ready [OF r, where R = example_runtime and d = ?d
      and path = "''[]''" and m = 0 and n = 0 and r = ?d and v = JNull]
  note c = Config_get_ready [OF r, where R = example_runtime and d = ?d
      and path = "''moreconfig.defaultKey''" and m = 0 and n = 0
      and r = "Data (JStr ''defaultValue'')" and v = JNull]
  note e = Config_get_ready [OF r, where R = example_runtime and d = ?d
      and path = "''toString''" and m = 0 and n = 0
      and r = "Native ''Object.prototype.toString''" and v = JNull]
  note f = Config_get_ready [OF r, where R = example_runtime and d = ?d
      and path = "''moreconfig''" and m = 0 and n = 0 and r = ?d and v = ?m]
  from a have g0: "Config_get example_runtime loaded_defaults [] ?d = Inr ?root"
    by blast
  from a w1 w2 have g1: "Config_get example_runtime loaded_defaults
      ''moreconfig.missing.deeper'' ?d = Inr ?d"
    by simp
  from b s0 nan have g2: "Config_get example_runtime loaded_defaults ''[]'' ?d = Inr ?d"
    by simp
  from c t1 q1 have g3: "Config_get example_runtime loaded_defaults ''moreconfig.defaultKey'' ?d
      = Inr (Data (JStr ''defaultValue''))"
    by simp
  from e t2 q2 have g4: "Config_get example_runtime loaded_defaults ''toString'' ?d
      = Inr (Native ''Object.prototype.toString'')"
    by simp
  from f ct s3 t3 o3 have g5: "Config_get example_runtime loaded_defaults ''moreconfig'' ?d
      = Inr (Data ?m) \<and> part_of ?m (mergedConfigs loaded_defaults)"
    by simp
  show ?thesis
    using r g0 w1 w2 g1 s0 g2 g3 g4 o3 g5 by simp
qed

text \<open>
  The claim as it was stated has the empty path answer the default. It does not: on the
  loaded instance \<open>get('', 'fallback')\<close> is the merged tree.
\<close>

theorem Config_get_empty_path_counterexample:
  "ready loaded_defaults
   \<and> Config_get example_runtime loaded_defaults [] (Data (JStr ''fallback''))
       = Inr (Data (JObj True [(''moreconfig'', JObj True [(''defaultKey'', JStr ''defaultValue'')]),
                               (''port'', JNum 80)]))
   \<and> Config_get example_runtime loaded_defaults [] (Data (JStr ''fallback''))
       \<noteq> Inr (Data (JStr ''fallback''))"
  by (simp add: loaded_defaults_eq Config_get_def)

section \<open>The two notations of a path\<close>




section \<open>A failed pass\<close>

text \<open>
  Claim C1. \<open>fst (loadConfigs E c)\<close> is the promise a call of \<open>loadConfigs()\<close> returns and
  \<open>loading\<close> of it the resolutions of its pass: for an instance with no load in flight,
  one per source of the instance, where a script whose import fails counts as resolved.
  If any of them fails, the promise rejects with one of the failures; \<open>mergedConfigs\<close>
  still is the tree published before and \<open>ready\<close> keeps its value (true after an earlier
  successful load, false on a first load), the sources are as they were and the guard is
  cleared.
\<close>

theorem failed_resolution_keeps_state:
  assumes "Inl e0 \<in> set (loading (fst (loadConfigs E c)))"
  shows "(\<exists>e c'. await_loadConfigs E c = (Rejected e, c')
      \<and> Inl e \<in> set (loading (fst (loadConfigs E c)))
      \<and> mergedConfigs c' = mergedConfigs c \<and> ready c' = ready c
      \<and> sources c' = sources c \<and> loadConfigsPromise c' = None)
    \<and> (loadConfigsPromise c = None \<longrightarrow>
          loading (fst (loadConfigs E c)) = map (resolve E) (sources c))"
proof -
  obtain p c1 where l: "loadConfigs E c = (p, c1)"
    by (cases "loadConfigs E c")
  with assms obtain e where e: "Promise_all (loading p) = Inl e"
    using Promise_all_fails by fastforce
  have k: "ready c1 = ready c" "mergedConfigs c1 = mergedConfigs c" "sources c1 = sources c"
    using loadConfigs_keeps [of E c] l by simp_all
  have "await_loadConfigs E c = (Rejected e, c1\<lparr>loadConfigsPromise := None\<rparr>)"
    using l settle_Inl [OF e] by (simp add: await_loadConfigs_def)
  moreover have "Inl e \<in> set (loading (fst (loadConfigs E c)))"
    using Promise_all_Inl [OF e] l by simp
  moreover have "loadConfigsPromise c = None \<longrightarrow>
      loading (fst (loadConfigs E c)) = map (resolve E) (sources c)"
    by (simp add: loadConfigs_idle)
  ultimately show ?thesis
    using k by simp
qed

text \<open>
  A first load and a reload that fail on \<open>broken.json\<close>: the new instance stays not ready
  with its initial empty tree, the loaded one stays ready with the tree it had.
\<close>

theorem failed_resolution_keeps_state_witness:
  "Inl (DecodeFailure ''json'')
     \<in> set (loading (fst (loadConfigs example_env
          (new_Config (InlineValue 0) [FileReference ''broken.json'']))))
   \<and> (\<exists>e c'. await_loadConfigs example_env
          (new_Config (InlineValue 0) [FileReference ''broken.json'']) = (Rejected e, c')
        \<and> mergedConfigs c' = JObj False [] \<and> \<not> ready c')
   \<and> Inl (DecodeFailure ''json'')
     \<in> set (loading (fst (loadConfigs example_env
          (loaded_defaults\<lparr>sources := sources loaded_defaults @ [FileReference ''broken.json'']\<rparr>))))
   \<and> (\<exists>e c'. await_loadConfigs example_env
          (loaded_defaults\<lparr>sources := sources loaded_defaults @ [FileReference ''broken.json'']\<rparr>)
            = (Rejected e, c')
        \<and> mergedConfigs c' = mergedConfigs loaded_defaults \<and> ready c')"
proof -
  let ?first = "new_Config (InlineValue 0) [FileReference ''broken.json'']"
  let ?again = "loaded_defaults\<lparr>sources := sources loaded_defaults @ [FileReference ''broken.json'']\<rparr>"
  have h1: "Inl (DecodeFailure ''json'') \<in> set (loading (fst (loadConfigs example_env ?first)))"
    by (simp add: load_defs example_defs)
  have h2: "Inl (DecodeFailure ''json'') \<in> set (loading (fst (loadConfigs example_env ?again)))"
    by (simp add: loaded_defaults_eq load_defs example_defs)
  have m1: "mergedConfigs ?first = JObj False []" "\<not> ready ?first"
    by (simp_all add: new_Config_def)
  have m2: "mergedConfigs ?again = mergedConfigs loaded_defaults" "ready ?again"
    by (simp_all add: loaded_defaults_eq)
  from failed_resolution_keeps_state [OF h1] m1
  have a: "\<exists>e c'. await_loadConfigs example_env ?first = (Rejected e, c')
      \<and> mergedConfigs c' = JObj False [] \<and> \<not> ready c'"
    by auto
  from failed_resolution_keeps_state [OF h2] m2
  have b: "\<exists>e c'. await_loadConfigs example_env ?again = (Rejected e, c')
      \<and> mergedConfigs c' = mergedConfigs loaded_defaults \<and> ready c'"
    by auto
  show ?thesis
    using h1 a h2 b by simp
qed

section \<open>Single flight\<close>

lemma loadConfigs_times_pending:
  "loadConfigsPromise c = Some p \<Longrightarrow> loadConfigs_times n E c = (replicate n p, c)"
  by (induction n) (simp_all add: loadConfigs_pending)

lemma settle_clears: "loadConfigsPromise (snd (settle E p c)) = None"
  by (simp add: settle_def split: sum.splits prod.splits)

lemma then_callback_passes: "passes (snd (then_callback E vs c)) = passes c"
  by (simp add: then_callback_def assign_merged_def freeze_merged_def set_ready_def
      split: sum.splits)

lemma then_callback_sources: "sources (snd (then_callback E vs c)) = sources c"
  by (simp add: then_callback_def assign_merged_def freeze_merged_def set_ready_def
      split: sum.splits)

lemma snd_settle:
  "snd (settle E p c) =
     (case Promise_all (loading p) of
        Inl reason \<Rightarrow> c
      | Inr resolvedSources \<Rightarrow> snd (then_callback E resolvedSources c))
     \<lparr>loadConfigsPromise := None\<rparr>"
  by (simp add: settle_def split: sum.splits prod.splits)

lemma settle_passes: "passes (snd (settle E p c)) = passes c"
  by (simp add: snd_settle then_callback_passes split: sum.splits)

lemma settle_sources: "sources (snd (settle E p c)) = sources c"
  by (simp add: snd_settle then_callback_sources split: sum.splits)

text \<open>In the earlier revision nothing clears the guard: once a load has been started,
  every later call answers its promise.\<close>

lemma settle_earlier_keeps_guard:
  "loadConfigsPromise (snd (settle_earlier E p c)) = loadConfigsPromise c"
  by (simp add: settle_earlier_def split: sum.splits)

text \<open>
  Claim C4 (\<open>build/index.js\<close>). While a load is in flight, a call of \<open>loadConfigs()\<close> returns the promise in
  flight and changes nothing. From an instance with no load in flight, \<open>n\<close> calls in
  a row return \<open>n\<close> times the same promise (so every caller sees its one outcome) and
  run one executor, which starts one resolution per source. When that promise settles,
  with either outcome, the guard is cleared, and the next call makes a promise that is
  not the old one and starts its own resolutions over the sources as they are then.
\<close>

theorem loadConfigs_single_flight:
  "(loadConfigsPromise c = Some q \<longrightarrow> loadConfigs E c = (q, c))
   \<and> (loadConfigsPromise c = None \<longrightarrow>
        loadConfigs_times (Suc n) E c
          = (replicate (Suc n) (fst (loadConfigs E c)), snd (loadConfigs E c))
        \<and> passes (snd (loadConfigs_times (Suc n) E c)) = passes c + 1
        \<and> loading (fst (loadConfigs E c)) = map (resolve E) (sources c)
        \<and> loadConfigsPromise (snd (settle E (fst (loadConfigs E c)) (snd (loadConfigs E c)))) = None
        \<and> pid (fst (loadConfigs E (snd (settle E (fst (loadConfigs E c)) (snd (loadConfigs E c))))))
            \<noteq> pid (fst (loadConfigs E c))
        \<and> loading (fst (loadConfigs E (snd (settle E (fst (loadConfigs E c)) (snd (loadConfigs E c))))))
            = map (resolve E) (sources c)
        \<and> passes (snd (loadConfigs E (snd (settle E (fst (loadConfigs E c)) (snd (loadConfigs E c))))))
            = passes c + 2)"
proof (intro conjI impI)
  assume "loadConfigsPromise c = Some q"
  then show "loadConfigs E c = (q, c)"
    by (rule loadConfigs_pending)
next
  assume idle: "loadConfigsPromise c = None"
  let ?p = "fst (loadConfigs E c)" and ?c1 = "snd (loadConfigs E c)"
  let ?c2 = "snd (settle E ?p ?c1)"
  have pend: "loadConfigsPromise ?c1 = Some ?p"
    using loadConfigs_keeps [of E c] by simp
  have p1: "passes ?c1 = passes c + 1" and pid1: "pid ?p = passes c"
    using idle by (simp_all add: loadConfigs_idle)
  show "loadConfigs_times (Suc n) E c = (replicate (Suc n) ?p, ?c1)"
    using loadConfigs_times_pending [OF pend, of n E]
    by (simp add: case_prod_unfold Let_def)
  then show "passes (snd (loadConfigs_times (Suc n) E c)) = passes c + 1"
    using p1 by simp
  show "loading ?p = map (resolve E) (sources c)"
    using idle by (simp add: loadConfigs_idle)
  show cl: "loadConfigsPromise ?c2 = None"
    by (rule settle_clears)
  have p2: "passes ?c2 = passes c + 1"
    using settle_passes [of E ?p ?c1] p1 by simp
  have s2: "sources ?c2 = sources c"
    using settle_sources [of E ?p ?c1] loadConfigs_keeps [of E c] by simp
  show "pid (fst (loadConfigs E ?c2)) \<noteq> pid ?p"
    using cl p2 pid1 by (simp add: loadConfigs_idle)
  show "loading (fst (loadConfigs E ?c2)) = map (resolve E) (sources c)"
    using cl s2 by (simp add: loadConfigs_idle)
  show "passes (snd (loadConfigs E ?c2)) = passes c + 2"
    using cl p2 by (simp add: loadConfigs_idle)
qed

text \<open>Three calls on a new instance, the settlement, and the call after it.\<close>

theorem loadConfigs_single_flight_witness:
  "loadConfigsPromise (new_Config (InlineValue 0) [FileReference ''base.yaml'']) = None
   \<and> loadConfigs_times (Suc 2) example_env (new_Config (InlineValue 0) [FileReference ''base.yaml''])
       = (replicate (Suc 2) (fst (loadConfigs example_env
                        (new_Config (InlineValue 0) [FileReference ''base.yaml'']))),
          snd (loadConfigs example_env (new_Config (InlineValue 0) [FileReference ''base.yaml''])))
   \<and> passes (snd (loadConfigs_times (Suc 2) example_env
                (new_Config (InlineValue 0) [FileReference ''base.yaml'']))) =
       passes (new_Config (InlineValue 0) [FileReference ''base.yaml'']) + 1
   \<and> loadConfigsPromise (snd (loadConfigs example_env
                (new_Config (InlineValue 0) [FileReference ''base.yaml''])))
       = Some (fst (loadConfigs example_env
                (new_Config (InlineValue 0) [FileReference ''base.yaml''])))
   \<and> loadConfigs example_env (snd (loadConfigs example_env
                (new_Config (InlineValue 0) [FileReference ''base.yaml''])))
       = (fst (loadConfigs example_env (new_Config (InlineValue 0) [FileReference ''base.yaml''])),
          snd (loadConfigs example_env (new_Config (InlineValue 0) [FileReference ''base.yaml''])))"
proof -
  let ?c = "new_Config (InlineValue 0) [FileReference ''base.yaml'']"
  have idle: "loadConfigsPromise ?c = None"
    by (simp add: new_Config_def)
  have pend: "loadConfigsPromise (snd (loadConfigs example_env ?c))
      = Some (fst (loadConfigs example_env ?c))"
    using loadConfigs_keeps [of example_env ?c] by simp
  note a = loadConfigs_single_flight [of ?c undefined example_env 2]
  note b = loadConfigs_single_flight [of "snd (loadConfigs example_env ?c)"
      "fst (loadConfigs example_env ?c)" example_env 0]
  from a idle have a': "loadConfigs_times (Suc 2) example_env ?c
        = (replicate (Suc 2) (fst (loadConfigs example_env ?c)), snd (loadConfigs example_env ?c))
      \<and> passes (snd (loadConfigs_times (Suc 2) example_env ?c)) = passes ?c + 1"
    by blast
  note a1 = a' [THEN conjunct1] and a2 = a' [THEN conjunct2]
  from b pend have b1: "loadConfigs example_env (snd (loadConfigs example_env ?c))
      = (fst (loadConfigs example_env ?c), snd (loadConfigs example_env ?c))"
    by blast
  show ?thesis
    by (intro conjI) (fact idle a1 a2 pend b1)+
qed

section \<open>Decoding a file\<close>


text \<open>
  Claim C5. \<open>loadFromFile\<close> reads the file first, and a read that fails is the failure
  of the source. For a file whose content has been read: a failure of the script form \<open>js\<close> is caught and answered with the
  empty object, so the source resolves; a decode failure of \<open>json\<close>, \<open>yaml\<close>, \<open>yml\<close> or
  \<open>toml\<close> is the result of \<open>loadFromFile\<close>, and a pass over sources that include the file
  then rejects; any other extension fails with UnsupportedFormat, no decoder being
  tried. The caught script failure is the only failure that \<open>loadFromFile\<close> turns into a
  value: whenever it answers a value, that value is what the decoder of the extension
  produced, or the extension is \<open>js\<close>, its import failed and the value is \<open>{}\<close>.
\<close>

theorem loadFromFile_failures:
  "(readFile E filePath = Inl e \<longrightarrow> loadFromFile E filePath = Inl e)
   \<and> (readFile E filePath = Inr fileContent \<longrightarrow>
      (extension filePath = ''js'' \<longrightarrow> import_default E fileContent = Inl e \<longrightarrow>
            loadFromFile E filePath = Inr (JObj False [])
            \<and> resolve E (FileReference filePath) = Inr (JObj False []))
    \<and> (extension filePath = ''json'' \<longrightarrow> JSON_parse E fileContent = Inl e \<longrightarrow>
            loadFromFile E filePath = Inl e)
    \<and> (extension filePath = ''yaml'' \<or> extension filePath = ''yml'' \<longrightarrow>
          yaml_parse E fileContent = Inl e \<longrightarrow> loadFromFile E filePath = Inl e)
    \<and> (extension filePath = ''toml'' \<longrightarrow> toml_parse E fileContent = Inl e \<longrightarrow>
            loadFromFile E filePath = Inl e)
    \<and> (extension filePath \<noteq> ''json'' \<longrightarrow> extension filePath \<noteq> ''yaml'' \<longrightarrow>
        extension filePath \<noteq> ''yml'' \<longrightarrow> extension filePath \<noteq> ''toml'' \<longrightarrow>
        extension filePath \<noteq> ''js'' \<longrightarrow>
            loadFromFile E filePath = Inl (UnsupportedFormat (extension filePath)))
    \<and> (loadFromFile E filePath = Inl e \<longrightarrow> loadConfigsPromise c = None \<longrightarrow>
        FileReference filePath \<in> set (sources c) \<longrightarrow>
            (\<exists>e' c'. await_loadConfigs E c = (Rejected e', c')))
    \<and> (loadFromFile E filePath = Inr v \<longrightarrow>
            (extension filePath = ''json'' \<and> JSON_parse E fileContent = Inr v)
          \<or> ((extension filePath = ''yaml'' \<or> extension filePath = ''yml'')
               \<and> yaml_parse E fileContent = Inr v)
          \<or> (extension filePath = ''toml'' \<and> toml_parse E fileContent = Inr v)
          \<or> (extension filePath = ''js'' \<and> import_default E fileContent = Inr v)
          \<or> (extension filePath = ''js'' \<and> (\<exists>e'. import_default E fileContent = Inl e')
               \<and> v = JObj False [])))"
proof (intro conjI impI)
  assume "readFile E filePath = Inl e"
  then show "loadFromFile E filePath = Inl e"
    by (simp add: loadFromFile_def)
next
  assume assms: "readFile E filePath = Inr fileContent"
  assume "extension filePath = ''js''" and "import_default E fileContent = Inl e"
  then show l: "loadFromFile E filePath = Inr (JObj False [])"
    using assms by (simp add: loadFromFile_def)
  then show "resolve E (FileReference filePath) = Inr (JObj False [])"
    by (simp add: resolve_def)
next
  assume assms: "readFile E filePath = Inr fileContent"
  assume "extension filePath = ''json''" and "JSON_parse E fileContent = Inl e"
  then show "loadFromFile E filePath = Inl e"
    using assms by (simp add: loadFromFile_def)
next
  assume assms: "readFile E filePath = Inr fileContent"
  assume "extension filePath = ''yaml'' \<or> extension filePath = ''yml''"
    and "yaml_parse E fileContent = Inl e"
  then show "loadFromFile E filePath = Inl e"
    using assms by (auto simp: loadFromFile_def)
next
  assume assms: "readFile E filePath = Inr fileContent"
  assume "extension filePath = ''toml''" and "toml_parse E fileContent = Inl e"
  then show "loadFromFile E filePath = Inl e"
    using assms by (simp add: loadFromFile_def)
next
  assume assms: "readFile E filePath = Inr fileContent"
  assume "extension filePath \<noteq> ''json''" "extension filePath \<noteq> ''yaml''"
    "extension filePath \<noteq> ''yml''" "extension filePath \<noteq> ''toml''"
    "extension filePath \<noteq> ''js''"
  then show "loadFromFile E filePath = Inl (UnsupportedFormat (extension filePath))"
    using assms by (simp add: loadFromFile_def)
next
  assume assms: "readFile E filePath = Inr fileContent"
  assume f: "loadFromFile E filePath = Inl e" and idle: "loadConfigsPromise c = None"
    and m: "FileReference filePath \<in> set (sources c)"
  have "resolve E (FileReference filePath) = Inl e"
    using f by (simp add: resolve_def)
  with idle m have "Inl e \<in> set (loading (fst (loadConfigs E c)))"
    by (rule failed_source_in_loading)
  then obtain e' where "Promise_all (loading (fst (loadConfigs E c))) = Inl e'"
    using Promise_all_fails by blast
  then have "await_loadConfigs E c
      = (Rejected e', (snd (loadConfigs E c))\<lparr>loadConfigsPromise := None\<rparr>)"
    by (simp add: await_loadConfigs_def case_prod_unfold settle_Inl)
  then show "\<exists>e' c'. await_loadConfigs E c = (Rejected e', c')"
    by blast
next
  assume assms: "readFile E filePath = Inr fileContent"
  assume v: "loadFromFile E filePath = Inr v"
  show "(extension filePath = ''json'' \<and> JSON_parse E fileContent = Inr v)
      \<or> ((extension filePath = ''yaml'' \<or> extension filePath = ''yml'')
           \<and> yaml_parse E fileContent = Inr v)
      \<or> (extension filePath = ''toml'' \<and> toml_parse E fileContent = Inr v)
      \<or> (extension filePath = ''js'' \<and> import_default E fileContent = Inr v)
      \<or> (extension filePath = ''js'' \<and> (\<exists>e'. import_default E fileContent = Inl e')
           \<and> v = JObj False [])"
    using v assms
    by (auto simp: loadFromFile_def split: if_splits sum.splits)
qed

text \<open>
  The files of the example: the script that does not import resolves to \<open>{}\<close> and
  the pass over it succeeds; the broken JSON file fails with the decoder's error and
  the pass over it rejects; \<open>notes.ini\<close> is read and refused for its extension;
  \<open>missing.toml\<close> cannot be read.
\<close>

theorem loadFromFile_failures_witness:
  "readFile example_env ''hook.js'' = Inr ''export default 1 +''
   \<and> extension ''hook.js'' = ''js''
   \<and> import_default example_env ''export default 1 +'' = Inl (DecodeFailure ''SyntaxError'')
   \<and> loadFromFile example_env ''hook.js'' = Inr (JObj False [])
   \<and> fst (await_loadConfigs example_env (new_Config (InlineValue 0) [FileReference ''hook.js'']))
       = Resolved
   \<and> readFile example_env ''broken.json'' = Inr ''{''
   \<and> extension ''broken.json'' = ''json''
   \<and> JSON_parse example_env ''{'' = Inl (DecodeFailure ''json'')
   \<and> loadFromFile example_env ''broken.json'' = Inl (DecodeFailure ''json'')
   \<and> (\<exists>e' c'. await_loadConfigs example_env
          (new_Config (InlineValue 0) [FileReference ''broken.json'']) = (Rejected e', c'))
   \<and> readFile example_env ''notes.ini'' = Inr ''port=80''
   \<and> loadFromFile example_env ''notes.ini'' = Inl (UnsupportedFormat ''ini'')
   \<and> readFile example_env ''base.yaml'' = Inr ''port: 80''
   \<and> loadFromFile example_env ''base.yaml'' = Inr (JObj False [(''port'', JNum 80)])
   \<and> yaml_parse example_env ''port: 80'' = Inr (JObj False [(''port'', JNum 80)])
   \<and> readFile example_env ''missing.toml'' = Inl (IOFailure ''missing.toml'')
   \<and> loadFromFile example_env ''missing.toml'' = Inl (IOFailure ''missing.toml'')"
proof -
  let ?first = "new_Config (InlineValue 0) [FileReference ''broken.json'']"
  have r1: "readFile example_env ''hook.js'' = Inr ''export default 1 +''"
    and r2: "readFile example_env ''broken.json'' = Inr ''{''"
    and r3: "readFile example_env ''notes.ini'' = Inr ''port=80''"
    and r4: "readFile example_env ''base.yaml'' = Inr ''port: 80''"
    by (simp_all add: example_defs)
  have x1: "extension ''hook.js'' = ''js''" and x2: "extension ''broken.json'' = ''json''"
    and x3: "extension ''notes.ini'' = ''ini''" and x4: "extension ''base.yaml'' = ''yaml''"
    by (simp_all add: extension_def)
  have d1: "import_default example_env ''export default 1 +'' = Inl (DecodeFailure ''SyntaxError'')"
    and d2: "JSON_parse example_env ''{'' = Inl (DecodeFailure ''json'')"
    and d4: "yaml_parse example_env ''port: 80'' = Inr (JObj False [(''port'', JNum 80)])"
    by (simp_all add: example_defs)
  have i: "loadConfigsPromise ?first = None"
    "FileReference ''broken.json'' \<in> set (sources ?first)"
    by (simp_all add: new_Config_def)
  have ok: "fst (await_loadConfigs example_env
      (new_Config (InlineValue 0) [FileReference ''hook.js''])) = Resolved"
    by (simp add: load_defs example_defs)
  have v4: "loadFromFile example_env ''base.yaml'' = Inr (JObj False [(''port'', JNum 80)])"
    by (simp add: loadFromFile_def extension_def example_defs)
  note a = loadFromFile_failures [where E = example_env and filePath = "''hook.js''"
      and e = "DecodeFailure ''SyntaxError''" and fileContent = "''export default 1 +''"
      and c = ?first and v = "JObj False []"]
  note b = loadFromFile_failures [where E = example_env and filePath = "''broken.json''"
      and e = "DecodeFailure ''json''" and fileContent = "''{''"
      and c = ?first and v = "JObj False []"]
  note c = loadFromFile_failures [where E = example_env and filePath = "''notes.ini''"
      and e = "DecodeFailure ''json''" and fileContent = "''port=80''"
      and c = ?first and v = "JObj False []"]
  note d = loadFromFile_failures [where E = example_env and filePath = "''base.yaml''"
      and e = "DecodeFailure ''json''" and fileContent = "''port: 80''"
      and c = ?first and v = "JObj False [(''port'', JNum 80)]"]
  note m = loadFromFile_failures [where E = example_env and filePath = "''missing.toml''"
      and e = "IOFailure ''missing.toml''" and fileContent = "[]"
      and c = ?first and v = "JObj False []"]
  from a r1 x1 d1 have g1: "loadFromFile example_env ''hook.js'' = Inr (JObj False [])"
    by blast
  from b r2 x2 d2 have g2: "loadFromFile example_env ''broken.json'' = Inl (DecodeFailure ''json'')"
    by blast
  from b r2 g2 i have g3: "\<exists>e' c'. await_loadConfigs example_env ?first = (Rejected e', c')"
    by blast
  from c r3 x3 have g4: "loadFromFile example_env ''notes.ini'' = Inl (UnsupportedFormat ''ini'')"
    by simp
  from d r4 v4 x4 have g5: "yaml_parse example_env ''port: 80'' = Inr (JObj False [(''port'', JNum 80)])"
    by simp
  have r5: "readFile example_env ''missing.toml'' = Inl (IOFailure ''missing.toml'')"
    by (simp add: example_defs)
  from m r5 have g6: "loadFromFile example_env ''missing.toml'' = Inl (IOFailure ''missing.toml'')"
    by blast
  show ?thesis
    by (intro conjI) (fact r1 x1 d1 g1 ok r2 x2 d2 g2 g3 r3 g4 r4 v4 g5 r5 g6)+
qed

section \<open>Publishing the merged tree\<close>

text \<open>What \<open>deepFreeze\<close> achieves, by induction along its own recursion: the value
  it is called on ends frozen, no content changes, and the result is recursively
  immutable exactly when every nested container that was frozen before was so.\<close>

lemma isFrozen_deepFreeze: "isFrozen (deepFreeze v)"
  by (cases v) simp_all

lemma typeof_object_frozen:
  "\<not> (typeof_object v \<and> \<not> isFrozen v) \<Longrightarrow> isFrozen v"
  by (cases v) simp_all

lemma deeply_frozen_isFrozen: "deeply_frozen v \<Longrightarrow> isFrozen v"
  by (cases v) simp_all

lemma unfrozen_container: "isFrozen v \<Longrightarrow> unfrozen v \<Longrightarrow> deeply_frozen v"
  by (cases v) simp_all

lemma deepFreeze_deeply_frozen:
  "deeply_frozen (deepFreeze v) = skipped_frozen v"
  "deeply_frozen_values (deepFreeze_values vs) = skipped_frozen_values vs"
  "deeply_frozen_props (deepFreeze_props kvs) = skipped_frozen_props kvs"
proof (induction v and vs and kvs rule: deepFreeze_deepFreeze_values_deepFreeze_props.induct)
  case (10 v vs)
  then show ?case
    using typeof_object_frozen [of v] by (cases "typeof_object v \<and> \<not> isFrozen v") auto
next
  case (12 k v kvs)
  then show ?case
    using typeof_object_frozen [of v] by (cases "typeof_object v \<and> \<not> isFrozen v") auto
qed simp_all

lemma unfrozen_skipped:
  "unfrozen v \<Longrightarrow> skipped_frozen v"
  "unfrozen_values vs \<Longrightarrow> skipped_frozen_values vs"
  "unfrozen_props kvs \<Longrightarrow> skipped_frozen_props kvs"
proof (induction v and vs and kvs rule: skipped_frozen_skipped_frozen_values_skipped_frozen_props.induct)
  case (10 v vs)
  then show ?case using unfrozen_container [of v] by auto
next
  case (12 k v kvs)
  then show ?case using unfrozen_container [of v] by auto
qed simp_all

lemma content_deepFreeze:
  "content (deepFreeze v) = content v"
  "content_values (deepFreeze_values vs) = content_values vs"
  "content_props (deepFreeze_props kvs) = content_props kvs"
  by (induction v and vs and kvs rule: deepFreeze_deepFreeze_values_deepFreeze_props.induct)
    simp_all

lemma settle_Resolved:
  assumes "settle E p c = (Resolved, c')"
  shows "\<exists>vs m. Promise_all (loading p) = Inr vs \<and> merge E vs = Inr m
      \<and> m \<noteq> JUndefined \<and> m \<noteq> JNull
      \<and> c' = (set_ready (freeze_merged (assign_merged m c)))\<lparr>loadConfigsPromise := None\<rparr>"
  using assms
  by (auto simp: settle_def then_callback_def split: sum.splits if_splits)

lemma loadConfigs_mergedConfigs: "mergedConfigs (snd (loadConfigs E c)) = mergedConfigs c"
  using loadConfigs_keeps [of E c] by simp

lemma remove_at_indexOf_keeps:
  "mergedConfigs (remove_at_indexOf src c) = mergedConfigs c
   \<and> ready (remove_at_indexOf src c) = ready c
   \<and> loadConfigsPromise (remove_at_indexOf src c) = loadConfigsPromise c
   \<and> passes (remove_at_indexOf src c) = passes c"
  by (simp add: remove_at_indexOf_def)

text \<open>
  Claim C8 has every published tree recursively immutable. \<open>deepFreeze\<close> sets out to
  make it so and misses one case: a nested container that is frozen already is passed
  over together with what it holds (by \<open>deepFreeze_deeply_frozen\<close> the result is recursively
  immutable exactly when every such container was). Two inline sources, the second
  holding an object \<open>a\<close> that its owner froze with an unfrozen object \<open>b\<close> inside: the
  load succeeds, the instance is ready, the root and \<open>moreconfig\<close> are frozen, \<open>a\<close> is
  as it was and \<open>b\<close> is not frozen.
\<close>

theorem deepFreeze_frozen_shell:
  "deepFreeze (JObj False [(''a'', JObj True [(''b'', JObj False [])])])
     = JObj True [(''a'', JObj True [(''b'', JObj False [])])]
   \<and> \<not> deeply_frozen (deepFreeze (JObj False [(''a'', JObj True [(''b'', JObj False [])])]))
   \<and> heap example_env 2 = JObj False [(''a'', JObj True [(''b'', JObj False [])])]
   \<and> await_loadConfigs example_env (new_Config (InlineValue 0) [InlineValue 2])
       = (Resolved,
          \<lparr>ready = True, loadConfigsPromise = None,
           mergedConfigs =
             JObj True [(''moreconfig'', JObj True [(''defaultKey'', JStr ''defaultValue'')]),
                        (''a'', JObj True [(''b'', JObj False [])])],
           sources = [InlineValue 0, InlineValue 2], passes = 1\<rparr>)
   \<and> \<not> deeply_frozen
         (JObj True [(''moreconfig'', JObj True [(''defaultKey'', JStr ''defaultValue'')]),
                     (''a'', JObj True [(''b'', JObj False [])])])
   \<and> own_walk
         (JObj True [(''moreconfig'', JObj True [(''defaultKey'', JStr ''defaultValue'')]),
                     (''a'', JObj True [(''b'', JObj False [])])])
         [''a'', ''b''] = Some (JObj False [])
   \<and> \<not> isFrozen (JObj False [])"
  by (simp add: load_defs example_defs)

section \<open>Removing a source\<close>

lemma indexOf_ge_minus_one: "- 1 \<le> indexOf xs x"
  by (induction xs) simp_all

lemma indexOf_member: "0 \<le> indexOf xs x \<longleftrightarrow> x \<in> set xs"
  using indexOf_ge_minus_one by (induction xs) (auto simp: not_less)

lemma splice1_indexOf: "x \<in> set xs \<Longrightarrow> splice1 xs (nat (indexOf xs x)) = remove1 x xs"
proof (induction xs)
  case Nil
  then show ?case by simp
next
  case (Cons y ys)
  show ?case
  proof (cases "y = x")
    case True
    then show ?thesis by (simp add: splice1_def)
  next
    case False
    with Cons.prems have m: "x \<in> set ys" by simp
    then have i: "0 \<le> indexOf ys x" by (simp add: indexOf_member)
    then have "nat (indexOf ys x + 1) = Suc (nat (indexOf ys x))" by simp
    with Cons.IH [OF m] False i show ?thesis
      by (simp add: splice1_def not_less)
  qed
qed

lemma sources_remove_at_indexOf:
  "sources (remove_at_indexOf src c) = remove1 src (sources c)"
  by (simp add: remove_at_indexOf_def indexOf_member splice1_indexOf remove1_idem)

lemma remove_at_indexOf_absent: "src \<notin> set (sources c) \<Longrightarrow> remove_at_indexOf src c = c"
  by (simp add: remove_at_indexOf_def indexOf_member)

lemma await_loadConfigs_passes:
  "loadConfigsPromise c = None \<Longrightarrow> passes (snd (await_loadConfigs E c)) = passes c + 1"
  by (simp add: await_loadConfigs_eq loadConfigs_idle settle_passes)

text \<open>
  Claim C9. \<open>removeSource(source)\<close> takes out the first element of the list that is
  strictly equal to its argument and nothing else: a file path with the same characters,
  an inline object that is the same object. An inline object of equal content at another
  address stays. When nothing is equal the list is left as it is and no error is raised
  for it. Then the load is awaited if and only if the instance is ready: an instance
  that is not ready is done at once, a ready one with no load in flight runs one more
  pass, over the sources that remain.
\<close>

theorem removeSource_exact_match:
  "sources (remove_at_indexOf src c) = remove1 src (sources c)
   \<and> (src \<notin> set (sources c) \<longrightarrow> remove_at_indexOf src c = c)
   \<and> (src \<in> set (sources c) \<longrightarrow>
        length (sources (remove_at_indexOf src c)) + 1 = length (sources c))
   \<and> (x \<noteq> src \<longrightarrow> x \<in> set (sources c) \<longrightarrow> x \<in> set (sources (remove_at_indexOf src c)))
   \<and> (heap E a = heap E b \<longrightarrow> a \<noteq> b \<longrightarrow> InlineValue a \<in> set (sources c) \<longrightarrow>
        InlineValue a \<in> set (sources (remove_at_indexOf (InlineValue b) c)))
   \<and> removeSource E src c =
        (if ready c then await_loadConfigs E (remove_at_indexOf src c)
         else (Resolved, remove_at_indexOf src c))
   \<and> (\<not> ready c \<longrightarrow> src \<notin> set (sources c) \<longrightarrow> removeSource E src c = (Resolved, c))
   \<and> (\<not> ready c \<longrightarrow> passes (snd (removeSource E src c)) = passes c)
   \<and> (ready c \<longrightarrow> loadConfigsPromise c = None \<longrightarrow>
        passes (snd (removeSource E src c)) = passes c + 1
        \<and> loading (fst (loadConfigs E (remove_at_indexOf src c)))
            = map (resolve E) (remove1 src (sources c)))"
proof -
  let ?c1 = "remove_at_indexOf src c"
  have k: "ready ?c1 = ready c" "loadConfigsPromise ?c1 = loadConfigsPromise c"
    "passes ?c1 = passes c"
    using remove_at_indexOf_keeps [of src c] by simp_all
  have s: "sources ?c1 = remove1 src (sources c)"
    by (rule sources_remove_at_indexOf)
  have n: "src \<notin> set (sources c) \<longrightarrow> ?c1 = c"
    by (simp add: remove_at_indexOf_absent)
  have l: "src \<in> set (sources c) \<longrightarrow> length (sources ?c1) + 1 = length (sources c)"
  proof
    assume m: "src \<in> set (sources c)"
    then have "0 < length (sources c)"
      by (rule length_pos_if_in_set)
    with m show "length (sources ?c1) + 1 = length (sources c)"
      by (simp add: s length_remove1)
  qed
  have o: "x \<noteq> src \<longrightarrow> x \<in> set (sources c) \<longrightarrow> x \<in> set (sources ?c1)"
    by (simp add: s)
  have h: "heap E a = heap E b \<longrightarrow> a \<noteq> b \<longrightarrow> InlineValue a \<in> set (sources c) \<longrightarrow>
      InlineValue a \<in> set (sources (remove_at_indexOf (InlineValue b) c))"
    by (simp add: sources_remove_at_indexOf)
  have r: "removeSource E src c =
      (if ready c then await_loadConfigs E ?c1 else (Resolved, ?c1))"
    by (simp add: removeSource_def Let_def k)
  have r0: "\<not> ready c \<longrightarrow> src \<notin> set (sources c) \<longrightarrow> removeSource E src c = (Resolved, c)"
    using r n by simp
  have p0: "\<not> ready c \<longrightarrow> passes (snd (removeSource E src c)) = passes c"
    using r k by simp
  have p1: "ready c \<longrightarrow> loadConfigsPromise c = None \<longrightarrow>
      passes (snd (removeSource E src c)) = passes c + 1
      \<and> loading (fst (loadConfigs E ?c1)) = map (resolve E) (remove1 src (sources c))"
    using r k s await_loadConfigs_passes [of ?c1 E] by (simp add: loadConfigs_idle)
  show ?thesis
    using s n l o h r r0 p0 p1 by blast
qed

text \<open>
  On the instance made of the defaults (object 0) and \<open>base.yaml\<close>: removing object 1,
  which holds the same content as object 0, or the path \<open>base.yml\<close>, changes nothing;
  removing \<open>base.yaml\<close> removes it; and on the loaded instance the removal is followed
  by a pass.
\<close>

theorem removeSource_exact_match_witness:
  "heap example_env 0 = heap example_env 1
   \<and> InlineValue 1 \<notin> set (sources (new_Config (InlineValue 0) [FileReference ''base.yaml'']))
   \<and> removeSource example_env (InlineValue 1)
        (new_Config (InlineValue 0) [FileReference ''base.yaml''])
       = (Resolved, new_Config (InlineValue 0) [FileReference ''base.yaml''])
   \<and> removeSource example_env (FileReference ''base.yml'')
        (new_Config (InlineValue 0) [FileReference ''base.yaml''])
       = (Resolved, new_Config (InlineValue 0) [FileReference ''base.yaml''])
   \<and> sources (remove_at_indexOf (FileReference ''base.yaml'')
        (new_Config (InlineValue 0) [FileReference ''base.yaml''])) = [InlineValue 0]
   \<and> ready loaded_defaults \<and> loadConfigsPromise loaded_defaults = None
   \<and> passes (snd (removeSource example_env (InlineValue 1) loaded_defaults))
       = passes loaded_defaults + 1
   \<and> sources (snd (removeSource example_env (InlineValue 1) loaded_defaults))
       = [InlineValue 0, FileReference ''base.yaml'']"
proof -
  let ?c = "new_Config (InlineValue 0) [FileReference ''base.yaml'']"
  have hp: "heap example_env 0 = heap example_env 1"
    by (simp add: example_defs)
  have s: "sources ?c = [InlineValue 0, FileReference ''base.yaml'']" and nr: "\<not> ready ?c"
    by (simp_all add: new_Config_def)
  have n1: "InlineValue 1 \<notin> set (sources ?c)" and n2: "FileReference ''base.yml'' \<notin> set (sources ?c)"
    by (simp_all add: s)
  have r: "ready loaded_defaults" and i: "loadConfigsPromise loaded_defaults = None"
    by (simp_all add: loaded_defaults_eq)
  have n3: "InlineValue 1 \<notin> set (sources loaded_defaults)"
    by (simp add: loaded_defaults_eq)
  note a = removeSource_exact_match [of "InlineValue 1" ?c "InlineValue 0" example_env 0 1]
  note b = removeSource_exact_match [of "FileReference ''base.yml''" ?c "InlineValue 0" example_env 0 1]
  note c = removeSource_exact_match [of "FileReference ''base.yaml''" ?c "InlineValue 0" example_env 0 1]
  note d = removeSource_exact_match [of "InlineValue 1" loaded_defaults "InlineValue 0" example_env 0 1]
  from a nr n1 have g1: "removeSource example_env (InlineValue 1) ?c = (Resolved, ?c)"
    by blast
  from b nr n2 have g2: "removeSource example_env (FileReference ''base.yml'') ?c = (Resolved, ?c)"
    by blast
  from c have g3: "sources (remove_at_indexOf (FileReference ''base.yaml'') ?c) = [InlineValue 0]"
    by (simp add: s)
  from d r i have g4: "passes (snd (removeSource example_env (InlineValue 1) loaded_defaults))
      = passes loaded_defaults + 1"
    by blast
  from d n3 have "remove_at_indexOf (InlineValue 1) loaded_defaults = loaded_defaults"
    by blast
  with d r have "removeSource example_env (InlineValue 1) loaded_defaults
      = await_loadConfigs example_env loaded_defaults"
    by simp
  then have g5: "sources (snd (removeSource example_env (InlineValue 1) loaded_defaults))
      = [InlineValue 0, FileReference ''base.yaml'']"
    by (simp add: await_loadConfigs_eq settle_sources loadConfigs_keeps loaded_defaults_eq)
  show ?thesis
    by (intro conjI) (fact hp n1 g1 g2 g3 r i g4 g5)+
qed

section \<open>The global instance\<close>

lemma then_callback_Rejected_ready:
  "then_callback E vs c = (Rejected e, c') \<Longrightarrow> ready c' = ready c"
  by (auto simp: then_callback_def assign_merged_def split: sum.splits if_splits)

lemma settle_Rejected_ready:
  assumes "settle E p c = (Rejected e, c')"
  shows "ready c' = ready c"
proof (cases "Promise_all (loading p)")
  case (Inl reason)
  with assms show ?thesis by (auto simp: settle_def)
next
  case (Inr vs)
  obtain out c2 where t: "then_callback E vs c = (out, c2)"
    by (cases "then_callback E vs c")
  with Inr assms have "out = Rejected e" and "c' = c2\<lparr>loadConfigsPromise := None\<rparr>"
    by (auto simp: settle_def)
  with t then_callback_Rejected_ready [of E vs c e c2] show ?thesis by simp
qed

text \<open>
  Claim C10. \<open>Config.init\<close> puts the new instance into the global slot before it awaits
  the first load. When that load fails, the promise of \<open>init\<close> rejects with the failure,
  the slot holds the new instance, which is not ready, and \<open>Config.c\<close> throws NotReady,
  whatever the slot held before the call (a ready instance included).
\<close>

theorem Config_init_failure_replaces_global:
  assumes "await_loadConfigs E (new_Config defaultConfig srcs) = (Rejected e, c')"
  shows "Config_init E defaultConfig srcs g = (Inl e, Some c')
    \<and> \<not> ready c'
    \<and> Config_c (snd (Config_init E defaultConfig srcs g)) = Inl NotReady
    \<and> snd (Config_init_start E defaultConfig srcs g)
        = Some (snd (loadConfigs E (new_Config defaultConfig srcs)))
    \<and> Config_c (snd (Config_init_start E defaultConfig srcs g)) = Inl NotReady"
proof -
  let ?c = "new_Config defaultConfig srcs"
  let ?p = "fst (loadConfigs E ?c)" and ?c1 = "snd (loadConfigs E ?c)"
  have s: "settle E ?p ?c1 = (Rejected e, c')"
    using assms by (simp add: await_loadConfigs_eq)
  have r1: "\<not> ready ?c1"
    using loadConfigs_keeps [of E ?c] by (simp add: new_Config_def)
  with settle_Rejected_ready [OF s] have r: "\<not> ready c'"
    by simp
  have i: "Config_init E defaultConfig srcs g = (Inl e, Some c')"
    using s by (simp add: Config_init_def Config_init_resume_def case_prod_unfold Let_def)
  have st: "snd (Config_init_start E defaultConfig srcs g) = Some ?c1"
    by (simp add: Config_init_start_def case_prod_unfold Let_def)
  show ?thesis
    using i r r1 st by (simp add: Config_c_def)
qed

text \<open>
  The global instance is the loaded one and \<open>Config.c\<close> answers it; \<open>init\<close> with
  \<open>broken.json\<close> rejects, and \<open>Config.c\<close> throws from then on.
\<close>

theorem Config_init_failure_replaces_global_witness:
  "Config_c (Some loaded_defaults) = Inr loaded_defaults
   \<and> (\<exists>c'. await_loadConfigs example_env (new_Config (FileReference ''broken.json'') [])
              = (Rejected (DecodeFailure ''json''), c')
          \<and> Config_init example_env (FileReference ''broken.json'') [] (Some loaded_defaults)
              = (Inl (DecodeFailure ''json''), Some c'))
   \<and> Config_c (snd (Config_init example_env (FileReference ''broken.json'') []
        (Some loaded_defaults))) = Inl NotReady"
proof -
  let ?c = "\<lparr>ready = False, loadConfigsPromise = None, mergedConfigs = JObj False [],
      sources = [FileReference ''broken.json''], passes = 1\<rparr>"
  have a: "await_loadConfigs example_env (new_Config (FileReference ''broken.json'') [])
      = (Rejected (DecodeFailure ''json''), ?c)"
    by (simp add: load_defs example_defs)
  have b: "Config_c (Some loaded_defaults) = Inr loaded_defaults"
    by (simp add: Config_c_def loaded_defaults_eq)
  from Config_init_failure_replaces_global [OF a, of "Some loaded_defaults"] a b
  show ?thesis
    by blast
qed

section \<open>The merge rule of the spec\<close>

lemma map_of_upsert:
  "map_of (upsert k v f acc) k' =
     (if k' = k then (case map_of acc k of None \<Rightarrow> Some v | Some v' \<Rightarrow> Some (f v'))
      else map_of acc k')"
  by (induction acc) auto

lemma map_of_merge_props:
  "distinct (map fst kvs) \<Longrightarrow>
   map_of (merge_props kvs acc) k =
     (case map_of kvs k of
        None \<Rightarrow> map_of acc k
      | Some v \<Rightarrow> (case map_of acc k of None \<Rightarrow> Some v | Some v' \<Rightarrow> Some (merge_onto v v')))"
proof (induction kvs arbitrary: acc)
  case Nil
  then show ?case by simp
next
  case (Cons kv kvs)
  obtain k0 v0 where kv: "kv = (k0, v0)"
    by (cases kv)
  from Cons.prems kv have d: "distinct (map fst kvs)" and n: "map_of kvs k0 = None"
    by (auto simp: map_of_eq_None_iff)
  show ?case
    using Cons.IH [OF d, of "upsert k0 v0 (merge_onto v0) acc"] n
    by (auto simp: kv map_of_upsert split: option.splits)
qed

lemma merge2_replaces: "\<not> (is_map lower \<and> is_map higher) \<Longrightarrow> merge2 lower higher = higher"
  by (cases higher; cases lower) (simp_all add: merge2_def)

lemma createMerger_right_snoc:
  "vs \<noteq> [] \<Longrightarrow> createMerger_right vs = Inr m \<Longrightarrow>
   createMerger_right (vs @ [w]) = Inr (merge2 m w)"
  by (cases vs) (auto simp: createMerger_right_def)

text \<open>
  The merger written from the spec's rule does what the rule says; this is a statement
  about \<open>createMerger_right\<close>, not about the package \<open>smob\<close>, whose treatment of two
  sequences under one key the source leaves to the package's defaults. With that merger,
  a successful load publishes the merge of the resolved values, frozen and otherwise
  unchanged. The merge of a family is the merge of its last member onto the merge of
  the members before it. Of two competing values the later one replaces the earlier one
  wholesale unless both are maps; two maps merge key by key: a key of one of them keeps
  its value, a key of both gets the merge of the two values. So \<open>{list:[1,2,3]}\<close> then
  \<open>{list:[9]}\<close> gives \<open>list == [9]\<close>, and \<open>{x:{p:1,q:1}}\<close> then \<open>{x:{q:2,r:2}}\<close>
  gives \<open>x == {p:1,q:2,r:2}\<close>.
\<close>

lemma merge_rule:
  "(merge E = createMerger_right \<longrightarrow> settle E p c = (Resolved, c') \<longrightarrow>
      (\<exists>vs m. Promise_all (loading p) = Inr vs \<and> createMerger_right vs = Inr m
         \<and> mergedConfigs c' = deepFreeze m \<and> content (mergedConfigs c') = content m))
   \<and> (vs \<noteq> [] \<longrightarrow> createMerger_right vs = Inr m \<longrightarrow>
        createMerger_right (vs @ [w]) = Inr (merge2 m w))
   \<and> (\<not> (is_map lower \<and> is_map higher) \<longrightarrow> merge2 lower higher = higher)
   \<and> (distinct (map fst kvs2) \<longrightarrow>
        (\<exists>kvs. merge2 (JObj f1 kvs1) (JObj f2 kvs2) = JObj False kvs
           \<and> map_of kvs k =
               (case map_of kvs1 k of
                  None \<Rightarrow> map_of kvs2 k
                | Some v1 \<Rightarrow>
                    (case map_of kvs2 k of None \<Rightarrow> Some v1 | Some v2 \<Rightarrow> Some (merge2 v1 v2)))))
   \<and> createMerger_right
        [JObj False [(''list'', JArr False [JNum 1, JNum 2, JNum 3])],
         JObj False [(''list'', JArr False [JNum 9])]]
       = Inr (JObj False [(''list'', JArr False [JNum 9])])
   \<and> createMerger_right
        [JObj False [(''x'', JObj False [(''p'', JNum 1), (''q'', JNum 1)])],
         JObj False [(''x'', JObj False [(''q'', JNum 2), (''r'', JNum 2)])]]
       = Inr (JObj False [(''x'', JObj False [(''p'', JNum 1), (''q'', JNum 2), (''r'', JNum 2)])])"
proof (intro conjI impI)
  assume e: "merge E = createMerger_right" and s: "settle E p c = (Resolved, c')"
  from settle_Resolved [OF s] obtain vs m where
    "Promise_all (loading p) = Inr vs" "merge E vs = Inr m"
    "c' = (set_ready (freeze_merged (assign_merged m c)))\<lparr>loadConfigsPromise := None\<rparr>"
    by blast
  then show "\<exists>vs m. Promise_all (loading p) = Inr vs \<and> createMerger_right vs = Inr m
      \<and> mergedConfigs c' = deepFreeze m \<and> content (mergedConfigs c') = content m"
    using e by (simp add: set_ready_def freeze_merged_def assign_merged_def content_deepFreeze)
next
  assume "vs \<noteq> []" and "createMerger_right vs = Inr m"
  then show "createMerger_right (vs @ [w]) = Inr (merge2 m w)"
    by (rule createMerger_right_snoc)
next
  assume "\<not> (is_map lower \<and> is_map higher)"
  then show "merge2 lower higher = higher"
    by (rule merge2_replaces)
next
  assume d: "distinct (map fst kvs2)"
  have "map_of (merge_props kvs2 kvs1) k =
      (case map_of kvs1 k of
         None \<Rightarrow> map_of kvs2 k
       | Some v1 \<Rightarrow>
           (case map_of kvs2 k of None \<Rightarrow> Some v1 | Some v2 \<Rightarrow> Some (merge2 v1 v2)))"
    by (simp add: map_of_merge_props [OF d] merge2_def split: option.splits)
  then show "\<exists>kvs. merge2 (JObj f1 kvs1) (JObj f2 kvs2) = JObj False kvs
      \<and> map_of kvs k =
          (case map_of kvs1 k of
             None \<Rightarrow> map_of kvs2 k
           | Some v1 \<Rightarrow>
               (case map_of kvs2 k of None \<Rightarrow> Some v1 | Some v2 \<Rightarrow> Some (merge2 v1 v2)))"
    by (simp add: merge2_def)
qed (simp_all add: createMerger_right_def merge2_def)

end
